theory Spec2Isabelle
  imports Complex_Main "HOL-Library.AList" "HOL-Library.Product_Lexorder"
begin

section \<open>Python values shared by the models\<close>

text \<open>
  Exceptions of the source are values.  Every \<^verbatim>\<open>raise\<close> of the modelled functions is an
  \<open>Inl\<close> branch of a result of type \<open>py_error + 'a\<close>.
\<close>

datatype py_error =
    ValueError string
  | AttributeError string
  | TypeError string
  | ValidationError string
  | LLMResponseError string
  | MaxFailuresReachedError int
  | OtherError string

text \<open>\<^verbatim>\<open>str(e)\<close>, the message of an exception.\<close>

fun error_message :: "py_error \<Rightarrow> string" where
  "error_message (ValueError m) = m"
| "error_message (AttributeError m) = m"
| "error_message (TypeError m) = m"
| "error_message (ValidationError m) = m"
| "error_message (LLMResponseError m) = m"
| "error_message (MaxFailuresReachedError n) = ''Agent reached maximum consecutive failures''"
| "error_message (OtherError m) = m"

text \<open>
  The \<^verbatim>\<open>recoverable\<close> attribute that core/exceptions.py gives an exception:
  \<^verbatim>\<open>MaxFailuresReachedError\<close> passes \<^verbatim>\<open>recoverable=False\<close>, \<^verbatim>\<open>LLMResponseError\<close> keeps
  the default \<^verbatim>\<open>True\<close> of the base class.  Exceptions of other libraries have no such
  attribute; the run loop treats them like recoverable ones.
\<close>

fun recoverable :: "py_error \<Rightarrow> bool" where
  "recoverable (MaxFailuresReachedError n) = False"
| "recoverable e = True"

text \<open>
  A Python \<^verbatim>\<open>dict\<close> keeps insertion order and an assignment to an existing key keeps the
  key's position.  That is \<open>AList.update\<close> on an association list, read with \<open>map_of\<close>.
\<close>

type_synonym ('k, 'v) dict = "('k \<times> 'v) list"

abbreviation dict_get :: "('k, 'v) dict \<Rightarrow> 'k \<Rightarrow> 'v option" where
  "dict_get d k \<equiv> map_of d k"

abbreviation dict_set :: "('k, 'v) dict \<Rightarrow> 'k \<Rightarrow> 'v \<Rightarrow> ('k, 'v) dict" where
  "dict_set d k v \<equiv> AList.update k v d"

abbreviation dict_values :: "('k, 'v) dict \<Rightarrow> 'v list" where
  "dict_values d \<equiv> map snd d"

text \<open>Python's truthiness of an optional string: \<^verbatim>\<open>None\<close> and \<^verbatim>\<open>""\<close> are false.\<close>

fun truthy :: "string option \<Rightarrow> bool" where
  "truthy None = False"
| "truthy (Some s) = (s \<noteq> [])"

section \<open>tools/views.py: ActionResult\<close>

record ActionResult =
  is_done :: bool
  success :: "bool option"
  extracted_content :: "string option"
  long_term_memory :: "string option"
  error :: "string option"
  metadata :: "(string, string) dict option"
  attachments :: "string list option"
  include_screenshot :: bool

text \<open>
  The \<^verbatim>\<open>model_validator(mode='after')\<close> of the class.  It runs on every construction; a
  \<^verbatim>\<open>ValueError\<close> raised in it makes the construction fail.
\<close>

definition validate_success_requires_done :: "ActionResult \<Rightarrow> py_error + ActionResult" where
  "validate_success_requires_done r =
     (if success r = Some True \<and> is_done r \<noteq> True
      then Inl (ValueError ''success=True can only be set when is_done=True. For regular actions that succeed, leave success as None.'')
      else Inr r)"

text \<open>\<^verbatim>\<open>ActionResult(...)\<close> with every field given, and with the defaults of the class.\<close>

definition new_ActionResult ::
  "bool \<Rightarrow> bool option \<Rightarrow> string option \<Rightarrow> string option \<Rightarrow> string option \<Rightarrow> py_error + ActionResult" where
  "new_ActionResult d s c m e =
     validate_success_requires_done
       \<lparr>is_done = d, success = s, extracted_content = c, long_term_memory = m, error = e,
        metadata = None, attachments = None, include_screenshot = False\<rparr>"

definition default_ActionResult :: ActionResult where
  "default_ActionResult =
     \<lparr>is_done = False, success = None, extracted_content = None, long_term_memory = None,
      error = None, metadata = None, attachments = None, include_screenshot = False\<rparr>"

definition has_error :: "ActionResult \<Rightarrow> bool" where
  "has_error r = (error r \<noteq> None)"

section \<open>dom/views.py: rectangles, styles, accessibility\<close>

text \<open>
  Coordinates are the JSON numbers of the browser protocol; they are modelled as reals, so
  the comparisons of the source are exact and rounding is not part of the model.
\<close>

record DOMRect =
  rect_x :: real
  rect_y :: real
  rect_width :: real
  rect_height :: real

record ComputedStyles =
  display :: string
  visibility :: string
  opacity :: string
  position :: string
  overflow :: string
  pointer_events :: string

text \<open>
  What Python's \<^verbatim>\<open>float(s)\<close> can return.  The builtin itself is not part of the
  repository: the functions below take it as the parameter \<open>pf\<close>, with \<open>None\<close> for the
  \<^verbatim>\<open>ValueError\<close> of a string that is no number.
\<close>

datatype pyfloat = Finite real | PosInf | NegInf | NaN

fun pyfloat_le_zero :: "pyfloat \<Rightarrow> bool" where
  "pyfloat_le_zero (Finite v) = (v \<le> 0)"
| "pyfloat_le_zero PosInf = False"
| "pyfloat_le_zero NegInf = True"
| "pyfloat_le_zero NaN = False"

definition styles_is_visible :: "(string \<Rightarrow> pyfloat option) \<Rightarrow> ComputedStyles \<Rightarrow> bool" where
  "styles_is_visible pf s =
     (if display s = ''none'' then False
      else if visibility s = ''hidden'' then False
      else (case pf (opacity s) of
              Some v \<Rightarrow> (if pyfloat_le_zero v then False else True)
            | None \<Rightarrow> True))"

text \<open>
  Lines 278-283 of \<^verbatim>\<open>_process_node\<close>.  Instances of the two dataclasses are always true
  in a condition, so \<^verbatim>\<open>if styles and ...\<close> only tests for \<^verbatim>\<open>None\<close>.
\<close>

definition node_visibility ::
  "(string \<Rightarrow> pyfloat option) \<Rightarrow> ComputedStyles option \<Rightarrow> DOMRect option \<Rightarrow> bool" where
  "node_visibility pf styles bounds =
     (let v1 = (case styles of
                  Some s \<Rightarrow> (if \<not> styles_is_visible pf s then False else True)
                | None \<Rightarrow> True);
          v2 = (case bounds of
                  Some b \<Rightarrow> (if rect_width b \<le> 0 \<or> rect_height b \<le> 0 then False else v1)
                | None \<Rightarrow> v1)
      in v2)"

section \<open>Python string helpers\<close>

text \<open>\<^verbatim>\<open>sep.join(parts)\<close>.\<close>

fun join :: "string \<Rightarrow> string list \<Rightarrow> string" where
  "join sep [] = []"
| "join sep [s] = s"
| "join sep (s # t # ts) = s @ sep @ join sep (t # ts)"

text \<open>
  \<^verbatim>\<open>s[:m]\<close> on a string or a list: a negative bound counts from the end.
\<close>

definition py_take :: "int \<Rightarrow> 'a list \<Rightarrow> 'a list" where
  "py_take m s = (if 0 \<le> m then take (nat m) s else take (nat (int (length s) + m)) s)"

text \<open>\<^verbatim>\<open>str.lower()\<close> on ASCII letters; other characters are left as they are.\<close>

definition lower_char :: "char \<Rightarrow> char" where
  "lower_char c =
     (case map_of (zip ''ABCDEFGHIJKLMNOPQRSTUVWXYZ'' ''abcdefghijklmnopqrstuvwxyz'') c of
        Some l \<Rightarrow> l
      | None \<Rightarrow> c)"

definition lower :: "string \<Rightarrow> string" where
  "lower s = map lower_char s"

text \<open>\<^verbatim>\<open>str(i)\<close> of an integer, as the f-strings of the source format an index.\<close>

fun str_nat :: "nat \<Rightarrow> string" where
  "str_nat n = (if n < 10 then [''0123456789'' ! n]
                else str_nat (n div 10) @ [''0123456789'' ! (n mod 10)])"

definition str_int :: "int \<Rightarrow> string" where
  "str_int i = (if i < 0 then ''-'' @ str_nat (nat (- i)) else str_nat (nat i))"

definition quote :: string where
  "quote = [CHR 0x27]"

definition newline :: string where
  "newline = [CHR 0x0A]"

definition tab :: char where
  "tab = CHR 0x09"

section \<open>dom/views.py: DOMState and SerializedDOM\<close>

text \<open>
  The dictionaries that \<^verbatim>\<open>DOMExtractor._node_to_dict\<close> builds: every key is present,
  \<^verbatim>\<open>bounds\<close>, \<^verbatim>\<open>index\<close> and \<^verbatim>\<open>accessibility\<close> may be \<^verbatim>\<open>None\<close>.  The key
  \<^verbatim>\<open>is_new\<close> is read by the serializer with the default \<^verbatim>\<open>False\<close>.
\<close>

record ax_summary =
  ax_role :: "string option"
  ax_name :: "string option"

record node_data =
  nd_node_id :: int
  nd_backend_node_id :: int
  nd_tag_name :: string
  nd_text :: string
  nd_attributes :: "(string, string) dict"
  nd_bounds :: "DOMRect option"
  nd_is_visible :: bool
  nd_is_clickable :: bool
  nd_is_editable :: bool
  nd_index :: "int option"
  nd_depth :: int
  nd_accessibility :: "ax_summary option"
  nd_is_new :: bool

record selector_info =
  si_backend_node_id :: int
  si_tag_name :: string
  si_attributes :: "(string, string) dict"
  si_bounds :: "DOMRect option"

record DOMState =
  root_node_id :: int
  nodes :: "(int, node_data) dict"
  interactive_elements :: "(int, node_data) dict"
  selector_map :: "(int, selector_info) dict"
  url :: string
  title :: string
  viewport_width :: int
  viewport_height :: int
  scroll_x :: real
  scroll_y :: real

record SerializedDOM =
  llm_representation :: string
  total_elements :: nat
  sd_interactive_elements :: nat
  visible_elements :: nat
  links_count :: nat
  iframes_count :: nat
  scroll_containers :: nat
  has_content_above :: bool
  has_content_below :: bool
  pages_above :: real
  pages_below :: real
  sd_selector_map :: "(int, selector_info) dict"

section \<open>dom/serializer.py: DOMSerializer\<close>

record serializer_stats =
  st_total_elements :: nat
  st_interactive_elements :: nat
  st_visible_elements :: nat
  st_links_count :: nat
  st_iframes_count :: nat
  st_scroll_containers :: nat

definition initial_stats :: serializer_stats where
  "initial_stats =
     \<lparr>st_total_elements = 0, st_interactive_elements = 0, st_visible_elements = 0,
      st_links_count = 0, st_iframes_count = 0, st_scroll_containers = 0\<rparr>"

definition default_include_attributes :: "string list" where
  "default_include_attributes =
     [''aria-label'', ''placeholder'', ''type'', ''role'', ''href'', ''src'', ''alt'',
      ''title'', ''name'', ''value'']"

text \<open>\<^verbatim>\<open>include_attributes or [...]\<close>: \<^verbatim>\<open>None\<close> and the empty list give the default set.\<close>

definition resolve_include_attributes :: "string list option \<Rightarrow> string list" where
  "resolve_include_attributes inc =
     (case inc of None \<Rightarrow> default_include_attributes
      | Some xs \<Rightarrow> (if xs = [] then default_include_attributes else xs))"

text \<open>One iteration of the loop of \<^verbatim>\<open>_calculate_stats\<close>, and the loop.\<close>

definition stats_step :: "serializer_stats \<Rightarrow> node_data \<Rightarrow> serializer_stats" where
  "stats_step st nd =
     (let st1 = st\<lparr>st_total_elements := st_total_elements st + 1\<rparr>;
          tag = lower (nd_tag_name nd);
          st2 = (if nd_is_visible nd
                 then st1\<lparr>st_visible_elements := st_visible_elements st1 + 1\<rparr> else st1);
          st3 = (if nd_index nd \<noteq> None
                 then st2\<lparr>st_interactive_elements := st_interactive_elements st2 + 1\<rparr> else st2)
      in if tag = ''a'' then st3\<lparr>st_links_count := st_links_count st3 + 1\<rparr>
         else if tag = ''iframe'' \<or> tag = ''frame''
         then st3\<lparr>st_iframes_count := st_iframes_count st3 + 1\<rparr>
         else st3)"

definition calculate_stats :: "serializer_stats \<Rightarrow> DOMState \<Rightarrow> serializer_stats" where
  "calculate_stats st ds = foldl stats_step st (dict_values (nodes ds))"

text \<open>\<^verbatim>\<open>_get_page_height\<close>: the running maximum starts at the viewport height.\<close>

definition page_height_step :: "real \<Rightarrow> node_data \<Rightarrow> real" where
  "page_height_step max_y nd =
     (case nd_bounds nd of
        Some b \<Rightarrow> max max_y (rect_y b + rect_height b)
      | None \<Rightarrow> max_y)"

definition get_page_height :: "DOMState \<Rightarrow> real" where
  "get_page_height ds =
     foldl page_height_step (real_of_int (viewport_height ds)) (dict_values (nodes ds))"

text \<open>
  \<^verbatim>\<open>_get_sorted_elements\<close>.  The key function reads \<^verbatim>\<open>e.get("bounds", {})\<close>; the key
  \<^verbatim>\<open>bounds\<close> is present with the value \<^verbatim>\<open>None\<close> for a node without layout data, and
  \<^verbatim>\<open>None.get\<close> raises \<^verbatim>\<open>AttributeError\<close>.  \<^verbatim>\<open>sorted\<close> is stable, as \<open>sort_key\<close> is.
\<close>

definition sort_key_of :: "node_data \<Rightarrow> real \<times> real" where
  "sort_key_of e = (case nd_bounds e of Some b \<Rightarrow> (rect_y b, rect_x b) | None \<Rightarrow> (0, 0))"

definition get_sorted_elements :: "DOMState \<Rightarrow> py_error + node_data list" where
  "get_sorted_elements ds =
     (let elements = filter nd_is_visible (dict_values (interactive_elements ds))
      in if \<exists>e \<in> set elements. nd_bounds e = None
         then Inl (AttributeError ''NoneType object has no attribute get'')
         else Inr (sort_key sort_key_of elements))"

text \<open>The attribute loop of \<^verbatim>\<open>_serialize_element\<close>.\<close>

definition attr_part :: "(string, string) dict \<Rightarrow> string \<Rightarrow> string list" where
  "attr_part attrs attr_name =
     (case dict_get attrs attr_name of
        None \<Rightarrow> []
      | Some v \<Rightarrow>
          (if v = [] then []
           else [attr_name @ ''='' @ quote @ (if length v > 50 then take 47 v @ ''...'' else v) @ quote]))"

definition ax_parts :: "(string, string) dict \<Rightarrow> ax_summary option \<Rightarrow> string list" where
  "ax_parts attrs ax =
     (case ax of
        None \<Rightarrow> []
      | Some a \<Rightarrow>
          (if truthy (ax_role a) \<and> dict_get attrs ''role'' = None
           then [''role='' @ quote @ the (ax_role a) @ quote] else [])
          @ (if truthy (ax_name a) \<and> dict_get attrs ''aria-label'' = None
             then [''aria-label='' @ quote @ take 50 (the (ax_name a)) @ quote] else []))"

definition serialize_element :: "string list \<Rightarrow> node_data \<Rightarrow> string" where
  "serialize_element include_attributes element =
     (case nd_index element of
        None \<Rightarrow> []
      | Some idx \<Rightarrow>
          (let tag = nd_tag_name element;
               text0 = nd_text element;
               attrs = nd_attributes element;
               attr_parts = concat (map (attr_part attrs) include_attributes)
                            @ ax_parts attrs (nd_accessibility element);
               attr_str = (if attr_parts \<noteq> [] then '' '' @ join '' '' attr_parts else []);
               text1 = (if length text0 > 100 then take 97 text0 @ ''...'' else text0);
               indent = replicate (nat (min (nd_depth element) 5)) tab;
               prefix = (if nd_is_new element then ''*'' else [])
           in indent @ prefix @ ''['' @ str_int idx @ '']<'' @ tag @ attr_str @ ''>'' @ text1
              @ ''</'' @ tag @ ''>''))"

text \<open>
  Lines 97-104 of \<^verbatim>\<open>serialize\<close>: the joined text, cut at \<^verbatim>\<open>max_length\<close>, and the local
  variable \<^verbatim>\<open>truncated\<close>.
\<close>

definition truncate_representation :: "int \<Rightarrow> string \<Rightarrow> string \<times> bool" where
  "truncate_representation max_length rep =
     (if int (length rep) > max_length
      then (py_take max_length rep, True)
      else (rep, False))"

text \<open>The lines of the page, before they are joined (lines 67-95).\<close>

definition build_lines ::
  "(real \<Rightarrow> string) \<Rightarrow> string list \<Rightarrow> bool \<Rightarrow> bool \<Rightarrow> real \<Rightarrow> node_data list \<Rightarrow> string list" where
  "build_lines fmt1 include_attributes c_above c_below p_above elements =
     (if c_above then [''... '' @ fmt1 p_above @ '' pages above ...''] else [''[Start of page]''])
     @ filter (\<lambda>l. l \<noteq> []) (map (serialize_element include_attributes) elements)
     @ (if \<not> c_below then [''[End of page]''] else [])"

text \<open>
  \<^verbatim>\<open>DOMSerializer(dom_state, max_length, include_attributes).serialize()\<close> on a fresh
  serializer.  \<open>fmt1\<close> is Python's \<^verbatim>\<open>.1f\<close> formatting of a float, a builtin taken as a
  parameter.  The returned dataclass is built from the cut text only: the local variable
  \<^verbatim>\<open>truncated\<close> is not passed on, and \<^verbatim>\<open>SerializedDOM\<close> has no field for it.
\<close>

definition serialize ::
  "(real \<Rightarrow> string) \<Rightarrow> int \<Rightarrow> string list option \<Rightarrow> DOMState \<Rightarrow> py_error + SerializedDOM" where
  "serialize fmt1 max_length inc ds =
     (let stats = calculate_stats initial_stats ds;
          sy = scroll_y ds;
          vh = viewport_height ds;
          page_height = get_page_height ds;
          p_above = (if vh > 0 then sy / real_of_int vh else 0);
          p_below = (if vh > 0 then max 0 ((page_height - sy - real_of_int vh) / real_of_int vh) else 0);
          c_above = (p_above > 0.1);
          c_below = (p_below > 0.1)
      in case get_sorted_elements ds of
           Inl e \<Rightarrow> Inl e
         | Inr elements \<Rightarrow>
             (let ls = build_lines fmt1 (resolve_include_attributes inc) c_above c_below p_above elements;
                  (rep, truncated) = truncate_representation max_length (join newline ls)
              in Inr \<lparr>llm_representation = rep,
                      total_elements = st_total_elements stats,
                      sd_interactive_elements = st_interactive_elements stats,
                      visible_elements = st_visible_elements stats,
                      links_count = st_links_count stats,
                      iframes_count = st_iframes_count stats,
                      scroll_containers = st_scroll_containers stats,
                      has_content_above = c_above,
                      has_content_below = c_below,
                      pages_above = p_above,
                      pages_below = p_below,
                      sd_selector_map = selector_map ds\<rparr>))"

section \<open>Auxiliary definitions for the serializer properties\<close>

text \<open>The bottom edges \<open>y + height\<close> of the nodes that have bounds, in table order.\<close>

definition node_bottoms :: "node_data list \<Rightarrow> real list" where
  "node_bottoms xs = map (\<lambda>b. rect_y b + rect_height b) (List.map_filter nd_bounds xs)"

text \<open>A formatting function for the concrete examples: it prints every value as 1.1.\<close>

definition fmt_fixed :: "real \<Rightarrow> string" where
  "fmt_fixed r = ''1.1''"

definition tall_node :: node_data where
  "tall_node =
     \<lparr>nd_node_id = 1, nd_backend_node_id = 1, nd_tag_name = ''div'', nd_text = [],
      nd_attributes = [],
      nd_bounds = Some \<lparr>rect_x = 0, rect_y = 1900, rect_width = 10, rect_height = 100\<rparr>,
      nd_is_visible = True, nd_is_clickable = False, nd_is_editable = False, nd_index = None,
      nd_depth = 0, nd_accessibility = None, nd_is_new = False\<rparr>"

text \<open>A page of height 2000 scrolled to 800 in a viewport of height 720.\<close>

definition scrolled_state :: DOMState where
  "scrolled_state =
     \<lparr>root_node_id = 1, nodes = [(1, tall_node)], interactive_elements = [], selector_map = [],
      url = [], title = [], viewport_width = 1280, viewport_height = 720,
      scroll_x = 0, scroll_y = 800\<rparr>"

text \<open>The same scroll position with a viewport height of -720 and no nodes.\<close>

definition negative_viewport_state :: DOMState where
  "negative_viewport_state =
     \<lparr>root_node_id = 0, nodes = [], interactive_elements = [], selector_map = [],
      url = [], title = [], viewport_width = 1280, viewport_height = - 720,
      scroll_x = 0, scroll_y = 800\<rparr>"

text \<open>\<^verbatim>\<open>DOMState(root_node_id=0)\<close>: no nodes, the default viewport, not scrolled.\<close>

definition empty_state :: DOMState where
  "empty_state =
     \<lparr>root_node_id = 0, nodes = [], interactive_elements = [], selector_map = [],
      url = [], title = [], viewport_width = 1280, viewport_height = 720,
      scroll_x = 0, scroll_y = 0\<rparr>"

text \<open>What the serializer returns for \<open>scrolled_state\<close>.\<close>

definition scrolled_result :: SerializedDOM where
  "scrolled_result =
     \<lparr>llm_representation = ''... 1.1 pages above ...'', total_elements = 1,
      sd_interactive_elements = 0, visible_elements = 1, links_count = 0,
      iframes_count = 0, scroll_containers = 0, has_content_above = True,
      has_content_below = True, pages_above = 10 / 9, pages_below = 2 / 3,
      sd_selector_map = []\<rparr>"

section \<open>browser/views.py and browser/session.py: new-element marking\<close>

text \<open>
  The fields of \<^verbatim>\<open>InteractiveElement\<close> and \<^verbatim>\<open>BrowserState\<close> that the marking reads or
  writes, with the tag and text of an element; geometry, tabs and screenshots play no part
  in it.  The driver builds every element with the default \<^verbatim>\<open>is_new=False\<close>.
\<close>

record InteractiveElement =
  ie_index :: int
  ie_tag_name :: string
  ie_text :: string
  ie_is_new :: bool

record BrowserState =
  bs_url :: string
  bs_title :: string
  bs_elements :: "InteractiveElement list"

text \<open>
  \<^verbatim>\<open>BrowserState.mark_new_elements\<close>.  A pydantic model is always true in a condition,
  so \<^verbatim>\<open>not previous_state\<close> only tests for \<^verbatim>\<open>None\<close>.
\<close>

definition mark_new_elements :: "BrowserState \<Rightarrow> BrowserState option \<Rightarrow> BrowserState" where
  "mark_new_elements self previous_state =
     (case previous_state of
        None \<Rightarrow> self
      | Some prev \<Rightarrow>
          (if bs_url self \<noteq> bs_url prev then self
           else (let previous_indices = set (map ie_index (bs_elements prev))
                 in self\<lparr>bs_elements :=
                      map (\<lambda>e. e\<lparr>ie_is_new := (ie_index e \<notin> previous_indices)\<rparr>)
                          (bs_elements self)\<rparr>)))"

text \<open>
  The state tracking of \<^verbatim>\<open>BrowserSession\<close>.  \<open>sess_active\<close> stands for
  \<^verbatim>\<open>self._is_active and self._driver\<close>.
\<close>

record BrowserSession =
  sess_active :: bool
  current_state :: "BrowserState option"
  previous_state :: "BrowserState option"
  state_history :: "(string \<times> string) list"

definition new_session :: BrowserSession where
  "new_session =
     \<lparr>sess_active = True, current_state = None, previous_state = None, state_history = []\<rparr>"

text \<open>
  \<^verbatim>\<open>BrowserSession.get_state\<close>.  The argument \<open>driver_state\<close> is what the driver
  returns for \<^verbatim>\<open>get_browser_state()\<close>, or the exception it raises.  The fresh state is
  marked against \<^verbatim>\<open>self._previous_state\<close> first; only then are the two tracked states
  shifted.
\<close>

definition get_state ::
  "BrowserSession \<Rightarrow> bool \<Rightarrow> py_error + BrowserState
     \<Rightarrow> (py_error + BrowserState) \<times> BrowserSession" where
  "get_state sess force_refresh driver_state =
     (if \<not> sess_active sess then (Inl (OtherError ''SessionExpiredError''), sess)
      else if \<not> force_refresh \<and> current_state sess \<noteq> None
      then (Inr (the (current_state sess)), sess)
      else (case driver_state of
              Inl e \<Rightarrow> (Inl e, sess)
            | Inr state0 \<Rightarrow>
                (let state = (if previous_state sess \<noteq> None
                              then mark_new_elements state0 (previous_state sess)
                              else state0)
                 in (Inr state,
                     sess\<lparr>previous_state := current_state sess,
                          current_state := Some state,
                          state_history := state_history sess @ [(bs_url state, bs_title state)]\<rparr>))))"

text \<open>Three snapshots of one page: a button, then a link beside it, then no change.\<close>

definition button_el :: InteractiveElement where
  "button_el = \<lparr>ie_index = 1, ie_tag_name = ''button'', ie_text = ''Open'', ie_is_new = False\<rparr>"

definition link_el :: InteractiveElement where
  "link_el = \<lparr>ie_index = 2, ie_tag_name = ''a'', ie_text = ''Help'', ie_is_new = False\<rparr>"

definition snapshot1 :: BrowserState where
  "snapshot1 = \<lparr>bs_url = ''https://a.test/'', bs_title = ''A'', bs_elements = [button_el]\<rparr>"

definition snapshot2 :: BrowserState where
  "snapshot2 = \<lparr>bs_url = ''https://a.test/'', bs_title = ''A'', bs_elements = [button_el, link_el]\<rparr>"

definition snapshot3 :: BrowserState where
  "snapshot3 = \<lparr>bs_url = ''https://a.test/'', bs_title = ''A'', bs_elements = [button_el, link_el]\<rparr>"

text \<open>The session after the first, and after the first two, forced refreshes.\<close>

definition session_after_1 :: BrowserSession where
  "session_after_1 = snd (get_state new_session True (Inr snapshot1))"

definition session_after_2 :: BrowserSession where
  "session_after_2 = snd (get_state session_after_1 True (Inr snapshot2))"

section \<open>JSON values\<close>

text \<open>
  What \<^verbatim>\<open>json.loads\<close> returns.  An object is a dict in key order.  The parser itself is
  a library function: the models take its result, \<open>None\<close> for a \<^verbatim>\<open>JSONDecodeError\<close>.
\<close>

datatype json =
    JNull
  | JBool bool
  | JNum real
  | JStr string
  | JList "json list"
  | JObj "(string \<times> json) list"

text \<open>Python's truthiness of a JSON value.\<close>

fun json_truthy :: "json \<Rightarrow> bool" where
  "json_truthy JNull = False"
| "json_truthy (JBool b) = b"
| "json_truthy (JNum r) = (r \<noteq> 0)"
| "json_truthy (JStr s) = (s \<noteq> [])"
| "json_truthy (JList xs) = (xs \<noteq> [])"
| "json_truthy (JObj kvs) = (kvs \<noteq> [])"

text \<open>
  \<^verbatim>\<open>for action in actions\<close>: a list gives its entries, a string its characters, a dict
  its keys; a number or a boolean is not iterable.
\<close>

fun json_iterate :: "json \<Rightarrow> py_error + json list" where
  "json_iterate (JList xs) = Inr xs"
| "json_iterate (JStr s) = Inr (map (\<lambda>c. JStr [c]) s)"
| "json_iterate (JObj kvs) = Inr (map (\<lambda>kv. JStr (fst kv)) kvs)"
| "json_iterate v = Inl (TypeError ''object is not iterable'')"

text \<open>An action is a dict from the action name to its parameters.\<close>

type_synonym action = "(string \<times> json) list"

text \<open>The entries that pass \<^verbatim>\<open>isinstance(action, dict)\<close>.\<close>

fun dict_entries :: "json list \<Rightarrow> action list" where
  "dict_entries [] = []"
| "dict_entries (JObj kvs # rest) = kvs # dict_entries rest"
| "dict_entries (v # rest) = dict_entries rest"

section \<open>llm/schema.py and agent/views.py\<close>

record AgentOutput =
  thinking :: "string option"
  evaluation_previous_goal :: "string option"
  memory :: "string option"
  next_goal :: "string option"
  action :: "action list"

text \<open>
  The validation of an \<^verbatim>\<open>Optional[str]\<close> field of the pydantic model: a missing key and
  \<^verbatim>\<open>null\<close> give \<^verbatim>\<open>None\<close>, a string is kept, anything else is a validation error.
\<close>

fun optional_str :: "json option \<Rightarrow> py_error + string option" where
  "optional_str None = Inr None"
| "optional_str (Some JNull) = Inr None"
| "optional_str (Some (JStr s)) = Inr (Some s)"
| "optional_str (Some v) = Inl (ValidationError ''Input should be a valid string'')"

definition new_AgentOutput ::
  "json option \<Rightarrow> json option \<Rightarrow> json option \<Rightarrow> json option \<Rightarrow> action list
     \<Rightarrow> py_error + AgentOutput" where
  "new_AgentOutput th ev me ng acts =
     (case optional_str th of Inl e \<Rightarrow> Inl e | Inr th' \<Rightarrow>
      case optional_str ev of Inl e \<Rightarrow> Inl e | Inr ev' \<Rightarrow>
      case optional_str me of Inl e \<Rightarrow> Inl e | Inr me' \<Rightarrow>
      case optional_str ng of Inl e \<Rightarrow> Inl e | Inr ng' \<Rightarrow>
        Inr \<lparr>thinking = th', evaluation_previous_goal = ev', memory = me', next_goal = ng',
             action = acts\<rparr>)"

record AgentSettings =
  max_actions_per_step :: int
  max_failures :: int
  max_steps :: int

record AgentHistory =
  h_model_output :: "AgentOutput option"
  h_results :: "ActionResult list"
  h_url :: "string option"
  h_title :: "string option"

text \<open>
  \<^verbatim>\<open>AgentState\<close> together with the history list of the agent.  The obj \<open>ag_is_done\<close>
  and \<open>ag_success\<close> are \<^verbatim>\<open>state.is_done\<close> and \<^verbatim>\<open>state.success\<close>.
\<close>

record agent =
  n_steps :: int
  consecutive_failures :: int
  last_result :: "ActionResult list option"
  last_output :: "AgentOutput option"
  ag_is_done :: bool
  is_paused :: bool
  is_stopped :: bool
  ag_success :: "bool option"
  history :: "AgentHistory list"

definition new_agent :: agent where
  "new_agent =
     \<lparr>n_steps = 0, consecutive_failures = 0, last_result = None, last_output = None,
      ag_is_done = False, is_paused = False, is_stopped = False, ag_success = None,
      history = []\<rparr>"

text \<open>\<^verbatim>\<open>AgentHistoryList.final_result\<close>.\<close>

definition final_result :: "AgentHistory list \<Rightarrow> string option" where
  "final_result hs =
     (if hs \<noteq> [] then
        (let l = last hs
         in if h_results l \<noteq> [] then extracted_content (last (h_results l)) else None)
      else None)"

section \<open>agent/executor.py: Agent\<close>

text \<open>
  \<^verbatim>\<open>Agent._parse_response\<close>, from the result of \<^verbatim>\<open>json.loads\<close> on.  Every exception
  of the body is turned into an \<^verbatim>\<open>LLMResponseError\<close> by the two handlers.
\<close>

definition parse_body :: "json \<Rightarrow> py_error + AgentOutput" where
  "parse_body data =
     (case data of
        JObj obj \<Rightarrow>
          (let actions = (case dict_get obj ''action'' of None \<Rightarrow> JList [] | Some v \<Rightarrow> v)
           in if \<not> json_truthy actions then Inl (ValueError ''No actions in response'')
              else (case json_iterate actions of
                      Inl e \<Rightarrow> Inl e
                    | Inr entries \<Rightarrow>
                        new_AgentOutput (dict_get obj ''thinking'')
                          (dict_get obj ''evaluation_previous_goal'')
                          (dict_get obj ''memory'') (dict_get obj ''next_goal'')
                          (dict_entries entries)))
      | _ \<Rightarrow> Inl (AttributeError ''object has no attribute get''))"

definition parse_response :: "json option \<Rightarrow> py_error + AgentOutput" where
  "parse_response content =
     (case content of
        None \<Rightarrow> Inl (LLMResponseError ''Invalid JSON'')
      | Some data \<Rightarrow>
          (case parse_body data of
             Inl e \<Rightarrow> Inl (LLMResponseError (''Failed to parse response: '' @ error_message e))
           | Inr out \<Rightarrow> Inr out))"

text \<open>
  The collaborators of one step.  \<open>browser_state\<close> is the result of
  \<^verbatim>\<open>browser.get_state(force_refresh=True)\<close> at the start of the step (URL and title),
  \<open>llm_complete\<close> the result of \<^verbatim>\<open>llm.complete\<close> with the content already passed
  through \<^verbatim>\<open>json.loads\<close>, \<open>tool_execute i name params\<close> the result of
  \<^verbatim>\<open>tools.execute\<close> for the action at position \<open>i\<close> of the step, and \<open>refresh_state i\<close>
  the exception, if any, of the state refresh after that action.
\<close>

record step_env =
  browser_state :: "py_error + (string \<times> string)"
  llm_complete :: "py_error + json option"
  tool_execute :: "nat \<Rightarrow> string \<Rightarrow> json \<Rightarrow> py_error + ActionResult"
  refresh_state :: "nat \<Rightarrow> py_error option"

text \<open>\<^verbatim>\<open>ActionResult(error=str(e))\<close>.\<close>

definition error_result :: "py_error \<Rightarrow> ActionResult" where
  "error_result e = default_ActionResult\<lparr>error := Some (error_message e)\<rparr>"

text \<open>The \<^verbatim>\<open>for\<close> loop of \<^verbatim>\<open>Agent._execute_actions\<close>; \<open>i\<close> is the position.\<close>

fun execute_actions_loop ::
  "step_env \<Rightarrow> nat \<Rightarrow> action list \<Rightarrow> ActionResult list \<Rightarrow> ActionResult list" where
  "execute_actions_loop env i [] results = results"
| "execute_actions_loop env i (a # rest) results =
     (if a = [] then execute_actions_loop env (i + 1) rest results
      else (case tool_execute env i (fst (hd a)) (snd (hd a)) of
              Inl e \<Rightarrow> results @ [error_result e]
            | Inr result \<Rightarrow>
                (let results1 = results @ [result]
                 in if truthy (error result) \<or> is_done result then results1
                    else (case refresh_state env i of
                            Some e \<Rightarrow> results1 @ [error_result e]
                          | None \<Rightarrow> execute_actions_loop env (i + 1) rest results1))))"

definition execute_actions :: "AgentSettings \<Rightarrow> step_env \<Rightarrow> action list \<Rightarrow> ActionResult list" where
  "execute_actions settings env actions =
     (let results = execute_actions_loop env 0 (py_take (max_actions_per_step settings) actions) []
      in if results \<noteq> [] then results else [default_ActionResult])"

text \<open>
  \<^verbatim>\<open>Agent._execute_step\<close>.  The agent's state and history are written only after the
  actions have run, so a step that raises leaves them as they were.
\<close>

definition execute_step :: "AgentSettings \<Rightarrow> step_env \<Rightarrow> agent \<Rightarrow> py_error + agent" where
  "execute_step settings env a =
     (case browser_state env of
        Inl e \<Rightarrow> Inl e
      | Inr page \<Rightarrow>
     (case llm_complete env of
        Inl e \<Rightarrow> Inl e
      | Inr content \<Rightarrow>
     (case parse_response content of
        Inl e \<Rightarrow> Inl e
      | Inr agent_output \<Rightarrow>
          (let results = execute_actions settings env (action agent_output);
               entry = \<lparr>h_model_output = Some agent_output, h_results = results,
                        h_url = Some (fst page), h_title = Some (snd page)\<rparr>;
               a1 = a\<lparr>history := history a @ [entry], last_output := Some agent_output,
                      last_result := Some results\<rparr>;
               a2 = (case List.find is_done results of
                       Some r \<Rightarrow> a1\<lparr>ag_is_done := True, ag_success := success r\<rparr>
                     | None \<Rightarrow> a1)
           in Inr (if \<not> (\<exists>r \<in> set results. truthy (error r))
                   then a2\<lparr>consecutive_failures := 0\<rparr> else a2)))))"

text \<open>
  One iteration of the \<^verbatim>\<open>while\<close> loop of \<^verbatim>\<open>Agent.run\<close>.  The inner loop
  \<^verbatim>\<open>while self.state.is_paused: await asyncio.sleep(0.1)\<close> ends only when another task
  calls \<^verbatim>\<open>resume()\<close>; the model has no other task, so a paused agent waits forever.
\<close>

datatype iteration = Continue agent | Break agent | Abort py_error agent | Wait

definition loop_iteration :: "AgentSettings \<Rightarrow> step_env \<Rightarrow> agent \<Rightarrow> iteration" where
  "loop_iteration settings env a =
     (if is_stopped a then Break a
      else if is_paused a then Wait
      else (case execute_step settings env a of
              Inr a' \<Rightarrow> Continue (a'\<lparr>n_steps := n_steps a' + 1\<rparr>)
            | Inl e \<Rightarrow>
                (let a1 = a\<lparr>consecutive_failures := consecutive_failures a + 1\<rparr>
                 in if consecutive_failures a1 \<ge> max_failures settings
                    then Abort (MaxFailuresReachedError (max_failures settings)) a1
                    else Continue (a1\<lparr>n_steps := n_steps a1 + 1\<rparr>))))"

text \<open>How a run ends: it returns, it raises, or it never returns.\<close>

datatype run_outcome = Returned agent | Raised py_error agent | Never_returns

lemma execute_step_n_steps:
  "execute_step settings env a = Inr a' \<Longrightarrow> n_steps a' = n_steps a"
  by (auto simp add: execute_step_def Let_def split: sum.splits option.splits if_splits)

lemma loop_iteration_n_steps:
  "loop_iteration settings env a = Continue a' \<Longrightarrow> n_steps a' = n_steps a + 1"
  by (auto simp add: loop_iteration_def Let_def split: if_splits sum.splits
           dest: execute_step_n_steps)

text \<open>The \<^verbatim>\<open>while\<close> loop; \<open>envs n\<close> are the collaborators of the step numbered \<open>n\<close>.\<close>

function run_loop :: "AgentSettings \<Rightarrow> int \<Rightarrow> (int \<Rightarrow> step_env) \<Rightarrow> agent \<Rightarrow> run_outcome" where
  "run_loop settings limit envs a =
     (if \<not> ag_is_done a \<and> n_steps a < limit then
        (case loop_iteration settings (envs (n_steps a)) a of
           Continue a' \<Rightarrow> run_loop settings limit envs a'
         | Break a' \<Rightarrow> Returned a'
         | Abort e a' \<Rightarrow> Raised e a'
         | Wait \<Rightarrow> Never_returns)
      else Returned a)"
  by pat_completeness auto
termination
  by (relation "measure (\<lambda>(settings, limit, envs, a). nat (limit - n_steps a))")
     (auto dest: loop_iteration_n_steps)

text \<open>
  \<^verbatim>\<open>Agent._force_completion\<close>; \<open>final_state\<close> is the result of \<^verbatim>\<open>browser.get_state()\<close>.
\<close>

definition force_completion :: "py_error + (string \<times> string) \<Rightarrow> agent \<Rightarrow> py_error + agent" where
  "force_completion final_state a =
     (case final_state of
        Inl e \<Rightarrow> Inl e
      | Inr page \<Rightarrow>
          (let fr = final_result (history a);
               text0 = (if truthy fr then the fr else ''Task incomplete - max steps reached'')
           in case new_ActionResult True (Some False) (Some text0)
                     (Some ''Task incomplete due to step limit'') None of
                Inl e \<Rightarrow> Inl e
              | Inr done_result \<Rightarrow>
                  Inr (a\<lparr>history := history a @
                            [\<lparr>h_model_output = None, h_results = [done_result],
                              h_url = Some (fst page), h_title = Some (snd page)\<rparr>],
                         ag_is_done := True, ag_success := Some False\<rparr>)))"

text \<open>
  \<^verbatim>\<open>Agent.run\<close>.  \<^verbatim>\<open>max_steps or self.settings.max_steps\<close> takes the setting for
  \<^verbatim>\<open>None\<close> and for 0.
\<close>

definition run ::
  "AgentSettings \<Rightarrow> int option \<Rightarrow> (int \<Rightarrow> step_env) \<Rightarrow> py_error + (string \<times> string)
     \<Rightarrow> agent \<Rightarrow> run_outcome" where
  "run settings max_steps_arg envs final_state a0 =
     (let limit = (case max_steps_arg of
                     None \<Rightarrow> max_steps settings
                   | Some m \<Rightarrow> (if m = 0 then max_steps settings else m))
      in case run_loop settings limit envs (a0\<lparr>n_steps := 0\<rparr>) of
           Returned a \<Rightarrow>
             (if n_steps a \<ge> limit \<and> \<not> ag_is_done a
              then (case force_completion final_state a of
                      Inl e \<Rightarrow> Raised e a
                    | Inr a' \<Rightarrow> Returned a')
              else Returned a)
         | Raised e a \<Rightarrow> Raised e a
         | Never_returns \<Rightarrow> Never_returns)"
section \<open>Auxiliary definitions for the step-loop properties\<close>

text \<open>\<^verbatim>\<open>AgentHistoryList.extracted_content\<close>: every non-empty extracted content, in order.\<close>

definition extracted_contents :: "AgentHistory list \<Rightarrow> string list" where
  "extracted_contents hs =
     map the (filter truthy (map extracted_content (concat (map h_results hs))))"

fun outcome_agent :: "run_outcome \<Rightarrow> agent option" where
  "outcome_agent (Returned a) = Some a"
| "outcome_agent (Raised e a) = Some a"
| "outcome_agent Never_returns = None"

text \<open>
  A run of two steps.  In step 0 the oracle asks for an extraction and the tool returns the
  text "data"; in step 1 the oracle sends one empty action.
\<close>

definition extract_env :: step_env where
  "extract_env =
     \<lparr>browser_state = Inr (''https://a.test/'', ''A''),
      llm_complete = Inr (Some (JObj [(''action'', JList [JObj [(''extract'', JObj [(''query'', JStr ''price'')])]])])),
      tool_execute = (\<lambda>i name params. Inr (default_ActionResult\<lparr>extracted_content := Some ''data''\<rparr>)),
      refresh_state = (\<lambda>i. None)\<rparr>"

definition empty_action_env :: step_env where
  "empty_action_env =
     \<lparr>browser_state = Inr (''https://a.test/'', ''A''),
      llm_complete = Inr (Some (JObj [(''action'', JList [JObj []])])),
      tool_execute = (\<lambda>i name params. Inr default_ActionResult),
      refresh_state = (\<lambda>i. None)\<rparr>"

definition two_step_envs :: "int \<Rightarrow> step_env" where
  "two_step_envs n = (if n = 0 then extract_env else empty_action_env)"

definition two_step_settings :: AgentSettings where
  "two_step_settings = \<lparr>max_actions_per_step = 4, max_failures = 3, max_steps = 2\<rparr>"

text \<open>A step whose oracle response has an empty action list.\<close>

definition no_action_env :: step_env where
  "no_action_env =
     \<lparr>browser_state = Inr (''https://a.test/'', ''A''),
      llm_complete = Inr (Some (JObj [(''action'', JList [])])),
      tool_execute = (\<lambda>i name params. Inr default_ActionResult),
      refresh_state = (\<lambda>i. None)\<rparr>"

definition two_step_run :: run_outcome where
  "two_step_run =
     run two_step_settings None two_step_envs (Inr (''https://a.test/'', ''A'')) new_agent"

text \<open>The result that \<^verbatim>\<open>_force_completion\<close> synthesizes from a text.\<close>

definition forced_result :: "string \<Rightarrow> ActionResult" where
  "forced_result c =
     default_ActionResult\<lparr>is_done := True, success := Some False, extracted_content := Some c,
       long_term_memory := Some ''Task incomplete due to step limit''\<rparr>"

text \<open>The agent after the two steps of \<open>two_step_envs\<close>, before the forced completion.\<close>

definition agent_after_two_steps :: agent where
  "agent_after_two_steps =
     \<lparr>n_steps = 2, consecutive_failures = 0, last_result = Some [default_ActionResult],
      last_output = Some \<lparr>thinking = None, evaluation_previous_goal = None, memory = None,
                          next_goal = None, action = [[]]\<rparr>,
      ag_is_done = False, is_paused = False, is_stopped = False, ag_success = None,
      history =
        [\<lparr>h_model_output =
            Some \<lparr>thinking = None, evaluation_previous_goal = None, memory = None,
                  next_goal = None,
                  action = [[(''extract'', JObj [(''query'', JStr ''price'')])]]\<rparr>,
          h_results = [default_ActionResult\<lparr>extracted_content := Some ''data''\<rparr>],
          h_url = Some ''https://a.test/'', h_title = Some ''A''\<rparr>,
         \<lparr>h_model_output =
            Some \<lparr>thinking = None, evaluation_previous_goal = None, memory = None,
                  next_goal = None, action = [[]]\<rparr>,
          h_results = [default_ActionResult],
          h_url = Some ''https://a.test/'', h_title = Some ''A''\<rparr>]\<rparr>"

section \<open>tutorial/agent.py: TutorialAgent and its loop detection\<close>

text \<open>
  The tutorial agent has the state and history of an agent, the list
  \<^verbatim>\<open>_recent_actions\<close> of tracked signatures and the threshold
  \<^verbatim>\<open>_max_repeated_actions\<close>, which \<^verbatim>\<open>__init__\<close> sets to 2.
\<close>

record tutorial_agent = agent +
  recent_actions :: "string list"
  max_repeated_actions :: int

definition new_tutorial_agent :: tutorial_agent where
  "new_tutorial_agent =
     \<lparr>n_steps = 0, consecutive_failures = 0, last_result = None, last_output = None,
      ag_is_done = False, is_paused = False, is_stopped = False, ag_success = None,
      history = [], recent_actions = [], max_repeated_actions = 2\<rparr>"

text \<open>\<^verbatim>\<open>_count_repeated_actions\<close> and \<^verbatim>\<open>_is_action_repeated\<close>.\<close>

definition count_repeated_actions :: "string list \<Rightarrow> string \<Rightarrow> int" where
  "count_repeated_actions recent action_sig = int (length (filter (\<lambda>s. s = action_sig) recent))"

definition is_action_repeated :: "int \<Rightarrow> string list \<Rightarrow> string \<Rightarrow> bool" where
  "is_action_repeated threshold recent action_sig =
     (count_repeated_actions recent action_sig \<ge> threshold)"

text \<open>
  The signature \<^verbatim>\<open>f"{action_name}:{json.dumps(params, sort_keys=True)}"\<close>;
  \<^verbatim>\<open>json.dumps\<close> with sorted keys is the parameter \<open>dumps\<close>.
\<close>

definition action_signature :: "(json \<Rightarrow> string) \<Rightarrow> action \<Rightarrow> string" where
  "action_signature dumps a = fst (hd a) @ '':'' @ dumps (snd (hd a))"

text \<open>Lines 549-551: the signature is appended and the list is kept at ten entries.\<close>

definition track_action :: "string list \<Rightarrow> string \<Rightarrow> string list" where
  "track_action recent action_sig =
     (let r = recent @ [action_sig] in if length r > 10 then tl r else r)"

definition loop_message :: string where
  "loop_message = ''Task incomplete - got stuck in a loop clicking the same element. There may be a popup or overlay blocking the target.''"

definition loop_result :: ActionResult where
  "loop_result =
     default_ActionResult\<lparr>is_done := True, success := Some False,
       extracted_content := Some loop_message\<rparr>"

text \<open>\<^verbatim>\<open>sub in s\<close> on strings.\<close>

fun starts_with :: "string \<Rightarrow> string \<Rightarrow> bool" where
  "starts_with [] s = True"
| "starts_with (c # cs) [] = False"
| "starts_with (c # cs) (d # ds) = (c = d \<and> starts_with cs ds)"

fun contains :: "string \<Rightarrow> string \<Rightarrow> bool" where
  "contains sub [] = (sub = [])"
| "contains sub (c # cs) = (starts_with sub (c # cs) \<or> contains sub cs)"

definition navigation_related :: "py_error \<Rightarrow> bool" where
  "navigation_related e =
     (let error_str = lower (error_message e)
      in contains ''execution context'' error_str \<or> contains ''navigation'' error_str)"

text \<open>
  The exception, if any, of \<^verbatim>\<open>_capture_action_state\<close> after the action at position
  \<open>i\<close>: the function returns at once for the actions wait and screenshot.
\<close>

definition capture_exception :: "step_env \<Rightarrow> nat \<Rightarrow> string \<Rightarrow> py_error option" where
  "capture_exception env i action_name =
     (if action_name = ''wait'' \<or> action_name = ''screenshot'' then None
      else refresh_state env i)"

text \<open>
  The \<^verbatim>\<open>for\<close> loop of \<^verbatim>\<open>_execute_and_capture_actions\<close>, on the tracked signatures and
  the results so far.  Pressing Escape on a detected repetition acts on the browser only,
  and its exceptions are swallowed.
\<close>

fun capture_loop ::
  "(json \<Rightarrow> string) \<Rightarrow> step_env \<Rightarrow> int \<Rightarrow> nat \<Rightarrow> action list \<Rightarrow> string list
     \<Rightarrow> ActionResult list \<Rightarrow> string list \<times> ActionResult list" where
  "capture_loop dumps env threshold i [] recent results = (recent, results)"
| "capture_loop dumps env threshold i (a # rest) recent results =
     (if a = [] then capture_loop dumps env threshold (i + 1) rest recent results
      else
        (let action_name = fst (hd a);
             params = snd (hd a);
             action_sig = action_signature dumps a
         in if is_action_repeated threshold recent action_sig
               \<and> count_repeated_actions recent action_sig \<ge> threshold + 2
            then (recent, results @ [loop_result])
            else
              (let recent1 = track_action recent action_sig
               in case tool_execute env i action_name params of
                    Inl e \<Rightarrow>
                      (if navigation_related e
                       then capture_loop dumps env threshold (i + 1) rest recent1
                              (results @ [default_ActionResult])
                       else (recent1, results @ [error_result e]))
                  | Inr result \<Rightarrow>
                      (case capture_exception env i action_name of
                         Some e \<Rightarrow>
                           (if navigation_related e
                            then capture_loop dumps env threshold (i + 1) rest recent1
                                   (results @ [result, default_ActionResult])
                            else (recent1, results @ [result, error_result e]))
                       | None \<Rightarrow>
                           (if truthy (error result) \<or> is_done result
                            then (recent1, results @ [result])
                            else capture_loop dumps env threshold (i + 1) rest recent1
                                   (results @ [result]))))))"

definition execute_and_capture_actions ::
  "(json \<Rightarrow> string) \<Rightarrow> step_env \<Rightarrow> int \<Rightarrow> string list \<Rightarrow> action list
     \<Rightarrow> string list \<times> ActionResult list" where
  "execute_and_capture_actions dumps env threshold recent actions =
     (let (recent1, results) = capture_loop dumps env threshold 0 (take 4 actions) recent []
      in (recent1, if results \<noteq> [] then results else [default_ActionResult]))"

text \<open>
  \<^verbatim>\<open>TutorialAgent._execute_step\<close>.  An exception before the actions run (state query,
  oracle call, parsing) leaves the agent as it was; the exceptions of the actions are caught
  inside \<^verbatim>\<open>_execute_and_capture_actions\<close>.
\<close>

definition tutorial_execute_step ::
  "(json \<Rightarrow> string) \<Rightarrow> step_env \<Rightarrow> tutorial_agent \<Rightarrow> py_error + tutorial_agent" where
  "tutorial_execute_step dumps env a =
     (case browser_state env of
        Inl e \<Rightarrow> Inl e
      | Inr page \<Rightarrow>
     (case llm_complete env of
        Inl e \<Rightarrow> Inl e
      | Inr content \<Rightarrow>
     (case parse_response content of
        Inl e \<Rightarrow> Inl e
      | Inr agent_output \<Rightarrow>
          (let (recent1, results) =
                 execute_and_capture_actions dumps env (max_repeated_actions a)
                   (recent_actions a) (action agent_output);
               entry = \<lparr>h_model_output = Some agent_output, h_results = results,
                        h_url = Some (fst page), h_title = Some (snd page)\<rparr>;
               a1 = a\<lparr>history := history a @ [entry], last_output := Some agent_output,
                      last_result := Some results, recent_actions := recent1\<rparr>;
               a2 = (case List.find is_done results of
                       Some r \<Rightarrow> a1\<lparr>ag_is_done := True, ag_success := success r\<rparr>
                     | None \<Rightarrow> a1)
           in Inr (if \<not> (\<exists>r \<in> set results. truthy (error r))
                   then a2\<lparr>consecutive_failures := 0\<rparr> else a2)))))"

text \<open>
  The main loop of \<^verbatim>\<open>TutorialAgent.run\<close>, with \<^verbatim>\<open>self.max_steps\<close> as \<open>limit\<close> and
  \<^verbatim>\<open>self.max_failures\<close> as \<open>budget\<close>.
\<close>

datatype tutorial_iteration =
  TContinue tutorial_agent | TBreak tutorial_agent | TAbort py_error tutorial_agent

datatype tutorial_outcome = TReturned tutorial_agent | TRaised py_error tutorial_agent

definition tutorial_iteration ::
  "(json \<Rightarrow> string) \<Rightarrow> int \<Rightarrow> step_env \<Rightarrow> tutorial_agent \<Rightarrow> tutorial_iteration" where
  "tutorial_iteration dumps budget env a =
     (if is_stopped a then TBreak a
      else (case tutorial_execute_step dumps env a of
              Inr a' \<Rightarrow> TContinue (a'\<lparr>n_steps := n_steps a' + 1\<rparr>)
            | Inl e \<Rightarrow>
                (let a1 = a\<lparr>consecutive_failures := consecutive_failures a + 1\<rparr>
                 in if consecutive_failures a1 \<ge> budget
                    then TAbort (MaxFailuresReachedError budget) a1
                    else TContinue (a1\<lparr>n_steps := n_steps a1 + 1\<rparr>))))"

lemma tutorial_execute_step_n_steps:
  "tutorial_execute_step dumps env a = Inr a' \<Longrightarrow> n_steps a' = n_steps a"
  by (auto simp add: tutorial_execute_step_def Let_def
           split: sum.splits option.splits if_splits prod.splits)

lemma tutorial_iteration_n_steps:
  "tutorial_iteration dumps budget env a = TContinue a' \<Longrightarrow> n_steps a' = n_steps a + 1"
  by (auto simp add: tutorial_iteration_def Let_def split: if_splits sum.splits
           dest: tutorial_execute_step_n_steps)

function tutorial_run_loop ::
  "(json \<Rightarrow> string) \<Rightarrow> int \<Rightarrow> int \<Rightarrow> (int \<Rightarrow> step_env) \<Rightarrow> tutorial_agent \<Rightarrow> tutorial_outcome" where
  "tutorial_run_loop dumps budget limit envs a =
     (if \<not> ag_is_done a \<and> n_steps a < limit then
        (case tutorial_iteration dumps budget (envs (n_steps a)) a of
           TContinue a' \<Rightarrow> tutorial_run_loop dumps budget limit envs a'
         | TBreak a' \<Rightarrow> TReturned a'
         | TAbort e a' \<Rightarrow> TRaised e a')
      else TReturned a)"
  by pat_completeness auto
termination
  by (relation "measure (\<lambda>(dumps, budget, limit, envs, a). nat (limit - n_steps a))")
     (auto dest: tutorial_iteration_n_steps)

text \<open>
  The step with these collaborators reaches the actions and the oracle proposes exactly the
  single action \<open>a\<close>: the state query and the oracle call succeed and the response parses.
\<close>

definition proposes :: "step_env \<Rightarrow> action \<Rightarrow> bool" where
  "proposes env a =
     (case browser_state env of
        Inl e \<Rightarrow> False
      | Inr page \<Rightarrow>
          (case llm_complete env of
             Inl e \<Rightarrow> False
           | Inr content \<Rightarrow>
               (case parse_response content of
                  Inl e \<Rightarrow> False
                | Inr out \<Rightarrow> action out = [a])))"

text \<open>A click on element 1, proposed in every step; the click itself succeeds.\<close>

definition click_action :: action where
  "click_action = [(''click'', JObj [(''index'', JNum 1)])]"

definition click_env :: step_env where
  "click_env =
     \<lparr>browser_state = Inr (''https://a.test/'', ''A''),
      llm_complete = Inr (Some (JObj [(''action'', JList [JObj click_action])])),
      tool_execute = (\<lambda>i name params. Inr default_ActionResult),
      refresh_state = (\<lambda>i. None)\<rparr>"

text \<open>A printing function for the example; the only parameters printed are those of the click.\<close>

definition dumps_fixed :: "json \<Rightarrow> string" where
  "dumps_fixed j = ''index=1''"

section \<open>dom/views.py: NodeType, AccessibilityInfo and DOMNode\<close>

datatype NodeType =
    ELEMENT_NODE
  | TEXT_NODE
  | CDATA_SECTION_NODE
  | PROCESSING_INSTRUCTION_NODE
  | COMMENT_NODE
  | DOCUMENT_NODE
  | DOCUMENT_TYPE_NODE
  | DOCUMENT_FRAGMENT_NODE

text \<open>\<^verbatim>\<open>NodeType(value)\<close>; \<open>None\<close> is the \<^verbatim>\<open>ValueError\<close> of a value outside the enum.\<close>

definition to_NodeType :: "int \<Rightarrow> NodeType option" where
  "to_NodeType v =
     (if v = 1 then Some ELEMENT_NODE
      else if v = 3 then Some TEXT_NODE
      else if v = 4 then Some CDATA_SECTION_NODE
      else if v = 7 then Some PROCESSING_INSTRUCTION_NODE
      else if v = 8 then Some COMMENT_NODE
      else if v = 9 then Some DOCUMENT_NODE
      else if v = 10 then Some DOCUMENT_TYPE_NODE
      else if v = 11 then Some DOCUMENT_FRAGMENT_NODE
      else None)"

record AccessibilityInfo =
  acc_role :: "string option"
  acc_name :: "string option"
  acc_description :: "string option"
  acc_properties :: "(string, string) dict"

record DOMNode =
  node_id :: int
  backend_node_id :: int
  node_type :: NodeType
  tag_name :: string
  node_value :: "string option"
  text_content :: string
  attributes :: "(string, string) dict"
  bounds :: "DOMRect option"
  computed_styles :: "ComputedStyles option"
  accessibility :: "AccessibilityInfo option"
  is_visible :: bool
  is_clickable :: bool
  is_editable :: bool
  is_scrollable :: bool
  parent_id :: "int option"
  children_ids :: "int list"
  depth :: int
  frame_id :: "string option"
  content_document_id :: "int option"
  shadow_root_type :: "string option"
  shadow_root_id :: "int option"
  index :: "int option"

definition is_element :: "DOMNode \<Rightarrow> bool" where
  "is_element n = (node_type n = ELEMENT_NODE)"

definition is_text :: "DOMNode \<Rightarrow> bool" where
  "is_text n = (node_type n = TEXT_NODE)"

definition interactive_tags :: "string list" where
  "interactive_tags =
     [''a'', ''button'', ''input'', ''select'', ''textarea'', ''label'', ''details'',
      ''summary'', ''dialog'']"

definition interactive_roles :: "string list" where
  "interactive_roles =
     [''button'', ''link'', ''menuitem'', ''option'', ''tab'', ''checkbox'', ''radio'',
      ''textbox'', ''combobox'']"

text \<open>The property \<^verbatim>\<open>DOMNode.is_interactive\<close>.\<close>

definition is_interactive :: "DOMNode \<Rightarrow> bool" where
  "is_interactive n =
     (if \<not> is_element n then False
      else if lower (tag_name n) \<in> set interactive_tags then True
      else if truthy (dict_get (attributes n) ''onclick'') then True
      else if truthy (dict_get (attributes n) ''tabindex'') then True
      else if dict_get (attributes n) ''contenteditable'' = Some ''true'' then True
      else if (case dict_get (attributes n) ''role'' of
                 Some r \<Rightarrow> r \<in> set interactive_roles
               | None \<Rightarrow> False) then True
      else False)"

text \<open>\<^verbatim>\<open>str.strip()\<close> for the ASCII whitespace characters.\<close>

definition is_space :: "char \<Rightarrow> bool" where
  "is_space c = (c \<in> set [CHR '' '', CHR 0x09, CHR 0x0A, CHR 0x0B, CHR 0x0C, CHR 0x0D])"

definition strip :: "string \<Rightarrow> string" where
  "strip s = rev (dropWhile is_space (rev (dropWhile is_space s)))"

definition get_text :: "DOMNode \<Rightarrow> string" where
  "get_text n =
     (let t = strip (text_content n)
      in if length t > 100 then take 97 t @ ''...'' else t)"

definition to_selector_info :: "DOMNode \<Rightarrow> selector_info" where
  "to_selector_info n =
     \<lparr>si_backend_node_id = backend_node_id n, si_tag_name = tag_name n,
      si_attributes = attributes n, si_bounds = bounds n\<rparr>"

section \<open>dom/extractor.py: the tree builder\<close>

text \<open>
  A node of the raw DOM tree of the browser protocol, a JSON object read with
  \<^verbatim>\<open>node.get\<close>: an absent key is \<open>None\<close> (or the empty list).
\<close>

datatype raw_node = RawNode
  (nodeId: "int option")
  (backendNodeId: "int option")
  (nodeType: "int option")
  (nodeName: "string option")
  (nodeValue: "string option")
  (raw_attributes: "string list")
  (isScrollable: bool)
  (frameId: "string option")
  (shadowRootType: "string option")
  (children: "raw_node list")
  (contentDocument: "raw_node option")
  (shadowRoots: "raw_node list")

text \<open>
  The two lookup tables that \<^verbatim>\<open>_build_dom_tree\<close> passes down, by backend node id, and
  Python's \<^verbatim>\<open>float\<close>.
\<close>

record snapshot_entry =
  se_bounds :: "DOMRect option"
  se_styles :: "ComputedStyles option"

record lookups =
  float_of :: "string \<Rightarrow> pyfloat option"
  snapshot_lookup :: "int \<Rightarrow> snapshot_entry option"
  ax_lookup :: "int \<Rightarrow> AccessibilityInfo option"

text \<open>
  The state of a \<^verbatim>\<open>DOMExtractor\<close>.  The table \<^verbatim>\<open>_nodes\<close> holds references to
  \<^verbatim>\<open>DOMNode\<close> objects which \<^verbatim>\<open>_process_node\<close> goes on changing after it has stored
  them; \<open>heap\<close> holds the objects in the order of their creation, and \<open>ex_nodes\<close> maps a
  node id to the position of its object.
\<close>

record extractor =
  heap :: "DOMNode list"
  ex_nodes :: "(int, nat) dict"
  ex_selector_map :: "(int, selector_info) dict"
  interactive_index :: int

definition new_extractor :: extractor where
  "new_extractor = \<lparr>heap = [], ex_nodes = [], ex_selector_map = [], interactive_index = 1\<rparr>"

text \<open>Lines 258-262: the alternating name/value list becomes a dict.\<close>

fun flatten_attributes :: "string list \<Rightarrow> (string, string) dict \<Rightarrow> (string, string) dict" where
  "flatten_attributes (k # v # rest) d = flatten_attributes rest (dict_set d k v)"
| "flatten_attributes rest d = d"

text \<open>
  Lines 252-304 for a node with both ids: the new \<^verbatim>\<open>DOMNode\<close> as the constructor
  call builds it, with the text of a text node.
\<close>

definition base_dom_node ::
  "lookups \<Rightarrow> raw_node \<Rightarrow> int \<Rightarrow> int \<Rightarrow> int option \<Rightarrow> int \<Rightarrow> DOMNode" where
  "base_dom_node lk raw nid bid parent d =
     (let ty = (case to_NodeType (case nodeType raw of None \<Rightarrow> 1 | Some v \<Rightarrow> v) of
                  Some t \<Rightarrow> t | None \<Rightarrow> ELEMENT_NODE);
          bds = (case snapshot_lookup lk bid of None \<Rightarrow> None | Some e \<Rightarrow> se_bounds e);
          sty = (case snapshot_lookup lk bid of None \<Rightarrow> None | Some e \<Rightarrow> se_styles e)
      in \<lparr>node_id = nid, backend_node_id = bid, node_type = ty,
          tag_name = lower (case nodeName raw of None \<Rightarrow> [] | Some s \<Rightarrow> s),
          node_value = nodeValue raw,
          text_content = (if ty = TEXT_NODE
                          then (case nodeValue raw of None \<Rightarrow> [] | Some s \<Rightarrow> s)
                          else []),
          attributes = flatten_attributes (raw_attributes raw) [],
          bounds = bds, computed_styles = sty, accessibility = ax_lookup lk bid,
          is_visible = node_visibility (float_of lk) sty bds, is_clickable = False,
          is_editable = False, is_scrollable = False, parent_id = parent,
          children_ids = [], depth = d, frame_id = frameId raw,
          content_document_id = None, shadow_root_type = None, shadow_root_id = None,
          index = None\<rparr>)"

text \<open>
  Lines 306-312, on the node: a visible interactive element takes the value \<open>i\<close> of
  \<^verbatim>\<open>self._interactive_index\<close> as its index and becomes clickable.
\<close>

definition assign_index :: "int \<Rightarrow> DOMNode \<Rightarrow> DOMNode" where
  "assign_index i n =
     (if is_element n \<and> is_interactive n \<and> is_visible n
      then n\<lparr>index := Some i, is_clickable := True\<rparr> else n)"

text \<open>Lines 314-321: the editable and the scrollable flag.\<close>

definition mark_editable :: "DOMNode \<Rightarrow> DOMNode" where
  "mark_editable n =
     (if lower (tag_name n) = ''input'' \<or> lower (tag_name n) = ''textarea''
         \<or> dict_get (attributes n) ''contenteditable'' = Some ''true''
      then n\<lparr>is_editable := True\<rparr> else n)"

definition mark_scrollable :: "raw_node \<Rightarrow> DOMNode \<Rightarrow> DOMNode" where
  "mark_scrollable raw n = (if isScrollable raw then n\<lparr>is_scrollable := True\<rparr> else n)"

definition make_dom_node ::
  "lookups \<Rightarrow> raw_node \<Rightarrow> int \<Rightarrow> int \<Rightarrow> int option \<Rightarrow> int \<Rightarrow> int \<Rightarrow> DOMNode" where
  "make_dom_node lk raw nid bid parent d i =
     mark_scrollable raw (mark_editable (assign_index i (base_dom_node lk raw nid bid parent d)))"

text \<open>
  Lines 306-324: the selector map and the counter are advanced for an indexed node, and the
  node is stored under its node id.
\<close>

definition store_node :: "DOMNode \<Rightarrow> extractor \<Rightarrow> extractor" where
  "store_node n ex =
     (let ex1 = (case index n of
                   Some i \<Rightarrow> ex\<lparr>ex_selector_map := dict_set (ex_selector_map ex) i (to_selector_info n),
                                 interactive_index := interactive_index ex + 1\<rparr>
                 | None \<Rightarrow> ex)
      in ex1\<lparr>heap := heap ex1 @ [n],
              ex_nodes := dict_set (ex_nodes ex1) (node_id n) (length (heap ex1))\<rparr>)"

text \<open>An assignment to fields of the object at position \<open>ad\<close>.\<close>

definition update_node :: "nat \<Rightarrow> (DOMNode \<Rightarrow> DOMNode) \<Rightarrow> extractor \<Rightarrow> extractor" where
  "update_node ad f ex = ex\<lparr>heap := (heap ex)[ad := f (heap ex ! ad)]\<rparr>"

text \<open>Lines 367-376: the text of the children, read through the table \<^verbatim>\<open>_nodes\<close>.\<close>

definition child_text_parts :: "extractor \<Rightarrow> int list \<Rightarrow> string list" where
  "child_text_parts ex ids =
     concat (map (\<lambda>cid. case dict_get (ex_nodes ex) cid of
                           None \<Rightarrow> []
                         | Some ad \<Rightarrow>
                             (let child = heap ex ! ad
                              in if is_text child then [text_content child]
                                 else if text_content child \<noteq> [] then [text_content child]
                                 else [])) ids)"

definition aggregate_text :: "nat \<Rightarrow> extractor \<Rightarrow> extractor" where
  "aggregate_text ad ex =
     (if is_element (heap ex ! ad)
      then update_node ad
             (\<lambda>n. n\<lparr>text_content := strip (join '' '' (child_text_parts ex (children_ids n)))\<rparr>) ex
      else ex)"

text \<open>
  \<^verbatim>\<open>_process_node\<close> with its three loops: the children, the content document of a frame
  and the shadow roots.  The result is the position of the new object, or \<open>None\<close> for a raw
  node without a node id or a backend node id, whose subtree is not visited.
\<close>

function process_node :: "lookups \<Rightarrow> raw_node \<Rightarrow> int option \<Rightarrow> int \<Rightarrow> extractor \<Rightarrow> nat option \<times> extractor"
  and process_children :: "lookups \<Rightarrow> raw_node list \<Rightarrow> int \<Rightarrow> int \<Rightarrow> int list \<Rightarrow> extractor \<Rightarrow> int list \<times> extractor"
  and process_shadow_roots :: "lookups \<Rightarrow> raw_node list \<Rightarrow> nat \<Rightarrow> int \<Rightarrow> int \<Rightarrow> extractor \<Rightarrow> extractor"
where
  "process_node lk (RawNode nid_opt bid_opt ty nm val attrs scr fid srt chs cd srs) parent d ex =
     (case nid_opt of
        None \<Rightarrow> (None, ex)
      | Some nid \<Rightarrow>
     (case bid_opt of
        None \<Rightarrow> (None, ex)
      | Some bid \<Rightarrow>
          (let n = make_dom_node lk (RawNode nid_opt bid_opt ty nm val attrs scr fid srt chs cd srs)
                     nid bid parent d (interactive_index ex);
               ad = length (heap ex);
               ex1 = store_node n ex;
               (ids, ex2) = process_children lk chs nid (d + 1) [] ex1;
               ex3 = update_node ad (\<lambda>m. m\<lparr>children_ids := ids\<rparr>) ex2;
               ex4 = (case cd of
                        None \<Rightarrow> ex3
                      | Some doc \<Rightarrow>
                          (case process_node lk doc (Some nid) (d + 1) ex3 of
                             (None, ex') \<Rightarrow> ex'
                           | (Some dad, ex') \<Rightarrow>
                               update_node ad
                                 (\<lambda>m. m\<lparr>content_document_id := Some (node_id (heap ex' ! dad))\<rparr>) ex'));
               ex5 = process_shadow_roots lk srs ad nid (d + 1) ex4
           in (Some ad, aggregate_text ad ex5))))"
| "process_children lk [] nid d ids ex = (ids, ex)"
| "process_children lk (c # cs) nid d ids ex =
     (case process_node lk c (Some nid) d ex of
        (None, ex') \<Rightarrow> process_children lk cs nid d ids ex'
      | (Some cad, ex') \<Rightarrow> process_children lk cs nid d (ids @ [node_id (heap ex' ! cad)]) ex')"
| "process_shadow_roots lk [] ad nid d ex = ex"
| "process_shadow_roots lk (r # rs) ad nid d ex =
     (case process_node lk r (Some nid) d ex of
        (None, ex') \<Rightarrow> process_shadow_roots lk rs ad nid d ex'
      | (Some sad, ex') \<Rightarrow>
          process_shadow_roots lk rs ad nid d
            (update_node ad
               (\<lambda>m. m\<lparr>shadow_root_id := Some (node_id (heap ex' ! sad)),
                       shadow_root_type := shadowRootType r\<rparr>) ex'))"
  by pat_completeness auto
termination
  by (relation "measure (\<lambda>x. case x of
          Inl (lk, raw, parent, d, ex) \<Rightarrow> size raw
        | Inr (Inl (lk, cs, nid, d, ids, ex)) \<Rightarrow> size_list size cs
        | Inr (Inr (lk, rs, ad, nid, d, ex)) \<Rightarrow> size_list size rs)") auto

text \<open>
  \<^verbatim>\<open>_build_dom_tree\<close>, the tree-building part of an extraction pass
  (\<^verbatim>\<open>DOMExtractor.extract\<close>), on the extractor as it stands: the fields \<^verbatim>\<open>_nodes\<close>,
  \<^verbatim>\<open>_selector_map\<close> and \<^verbatim>\<open>_interactive_index\<close> are set in \<^verbatim>\<open>__init__\<close> only, and
  neither \<^verbatim>\<open>extract\<close> nor \<^verbatim>\<open>_build_dom_tree\<close> resets them.  \<open>lk\<close> stands for the two
  tables that the function builds first, with \<^verbatim>\<open>_build_snapshot_lookup\<close> and
  \<^verbatim>\<open>_build_ax_lookup\<close>, from the layout snapshot and the accessibility tree of the pass;
  \<open>None\<close> is a tree without a root.
\<close>

definition build_dom_tree :: "lookups \<Rightarrow> raw_node option \<Rightarrow> extractor \<Rightarrow> extractor" where
  "build_dom_tree lk tree_root ex =
     (case tree_root of
        None \<Rightarrow> ex
      | Some r \<Rightarrow> snd (process_node lk r None 0 ex))"

section \<open>Auxiliary definitions for the tree-builder properties\<close>

text \<open>
  The depth-first walk in the words of the specification: a node, then its children in
  document order, then the content document of a frame, then the shadow roots.  A raw node
  without a node id or a backend node id is left out with its whole subtree.
\<close>

fun dfs_order :: "raw_node \<Rightarrow> raw_node list" where
  "dfs_order (RawNode nid_opt bid_opt ty nm val attrs scr fid srt chs cd srs) =
     (if nid_opt = None \<or> bid_opt = None then []
      else RawNode nid_opt bid_opt ty nm val attrs scr fid srt chs cd srs
           # concat (map dfs_order chs)
           @ (case cd of None \<Rightarrow> [] | Some doc \<Rightarrow> dfs_order doc)
           @ concat (map dfs_order srs))"

definition visited_ids :: "raw_node list \<Rightarrow> int list" where
  "visited_ids rs = map (\<lambda>r. the (nodeId r)) rs"

text \<open>
  The fields of a node that are fixed when the node is created; the later assignments of
  \<^verbatim>\<open>_process_node\<close> (children, frame and shadow links, aggregated text) leave them alone.
\<close>

definition static :: "DOMNode \<Rightarrow> int \<times> NodeType \<times> string \<times> (string, string) dict \<times> bool \<times> int option" where
  "static n = (node_id n, node_type n, tag_name n, attributes n, is_visible n, index n)"

definition qualifies :: "DOMNode \<Rightarrow> bool" where
  "qualifies n = (is_element n \<and> is_visible n \<and> is_interactive n)"

text \<open>Every key of the selector map is below the counter.\<close>

definition sel_ok :: "extractor \<Rightarrow> bool" where
  "sel_ok ex = (\<forall>k \<in> set (map fst (ex_selector_map ex)). k < interactive_index ex)"

text \<open>
  From \<open>ex\<close> to \<open>ex'\<close> the objects \<open>new\<close> were created, in this order and with the node
  ids \<open>ids\<close>; they took the indices from the counter of \<open>ex\<close> up to the counter of \<open>ex'\<close>.
\<close>

definition grows :: "int list \<Rightarrow> extractor \<Rightarrow> extractor \<Rightarrow> bool" where
  "grows ids ex ex' =
     (\<exists>new. map static (heap ex') = map static (heap ex) @ map static new
         \<and> map node_id new = ids
         \<and> List.map_filter index new = [interactive_index ex..interactive_index ex' - 1]
         \<and> (\<forall>n \<in> set new. index n \<noteq> None \<longrightarrow> qualifies n)
         \<and> interactive_index ex \<le> interactive_index ex'
         \<and> map fst (ex_selector_map ex')
             = map fst (ex_selector_map ex) @ [interactive_index ex..interactive_index ex' - 1]
         \<and> sel_ok ex')"

text \<open>
  A small page: a document with a link, a block that wraps a button, and an input field.
  No layout or accessibility data is known for any node.
\<close>

definition raw_leaf :: "int \<Rightarrow> string \<Rightarrow> string list \<Rightarrow> raw_node list \<Rightarrow> raw_node" where
  "raw_leaf i nm attrs chs =
     RawNode (Some i) (Some (100 + i)) (Some 1) (Some nm) None attrs False None None chs None []"

definition small_page :: raw_node where
  "small_page =
     RawNode (Some 1) (Some 101) (Some 9) (Some ''#document'') None [] False None None
       [raw_leaf 2 ''A'' [''href'', ''/help''] [],
        raw_leaf 3 ''DIV'' [] [raw_leaf 4 ''BUTTON'' [] []],
        raw_leaf 5 ''INPUT'' [''type'', ''text''] []]
       None []"

definition no_lookups :: lookups where
  "no_lookups =
     \<lparr>float_of = (\<lambda>s. None), snapshot_lookup = (\<lambda>b. None), ax_lookup = (\<lambda>b. None)\<rparr>"

text \<open>A page that is a document with one button.\<close>

definition button_page :: raw_node where
  "button_page =
     RawNode (Some 1) (Some 101) (Some 9) (Some ''#document'') None [] False None None
       [raw_leaf 2 ''BUTTON'' [] []] None []"

text \<open>
  Two extraction passes over that page with one \<^verbatim>\<open>DOMExtractor\<close>: the state after the
  first call of \<^verbatim>\<open>extract\<close> on a newly built extractor, and the state after the second
  call.
\<close>

definition first_pass :: extractor where
  "first_pass = build_dom_tree no_lookups (Some button_page) new_extractor"

definition second_pass :: extractor where
  "second_pass = build_dom_tree no_lookups (Some button_page) first_pass"

text \<open>
  What a pass leaves behind, as far as the indices go: the node ids and the indices of the
  objects in the order of their creation, the counter, and the keys of the selector map.
\<close>

definition pass_summary :: "extractor \<Rightarrow> int list \<times> int option list \<times> int \<times> int list" where
  "pass_summary ex =
     (map node_id (heap ex), map index (heap ex), interactive_index ex,
      map fst (ex_selector_map ex))"

section \<open>Properties\<close>

subsection \<open>ActionResult\<close>

definition in_progress_failure :: ActionResult where
  "in_progress_failure = default_ActionResult\<lparr>success := Some False\<rparr>"

text \<open>
  C1, as stated, fails: a result with \<^verbatim>\<open>success=False\<close> and \<^verbatim>\<open>is_done=False\<close> has a
  non-null success field and is accepted by the validator.
\<close>

theorem C1_counterexample:
  "validate_success_requires_done in_progress_failure = Inr in_progress_failure
   \<and> success in_progress_failure \<noteq> None \<and> \<not> is_done in_progress_failure"
  by (simp add: validate_success_requires_done_def in_progress_failure_def default_ActionResult_def)

text \<open>
  C1 (amended): every ActionResult that is successfully constructed has
  \<^verbatim>\<open>success=True\<close> only when \<^verbatim>\<open>is_done\<close> is true, and the construction of a result
  with \<^verbatim>\<open>success=True\<close> and \<^verbatim>\<open>is_done=False\<close> is rejected with a validation error;
  \<^verbatim>\<open>success=False\<close> and \<^verbatim>\<open>success=None\<close> are accepted whatever \<^verbatim>\<open>is_done\<close> is.
\<close>

theorem C1_success_true_requires_done:
  "(\<forall>r'. validate_success_requires_done r = Inr r' \<longrightarrow> r' = r \<and> (success r' = Some True \<longrightarrow> is_done r'))
   \<and> (success r = Some True \<and> \<not> is_done r \<longrightarrow> isl (validate_success_requires_done r))
   \<and> (success r \<noteq> Some True \<longrightarrow> validate_success_requires_done r = Inr r)"
  by (auto simp add: validate_success_requires_done_def)

theorem C1_success_true_requires_done_witness:
  "validate_success_requires_done (default_ActionResult\<lparr>is_done := True, success := Some True\<rparr>)
     = Inr (default_ActionResult\<lparr>is_done := True, success := Some True\<rparr>)
   \<and> isl (validate_success_requires_done (default_ActionResult\<lparr>success := Some True\<rparr>))
   \<and> validate_success_requires_done default_ActionResult = Inr default_ActionResult"
  using C1_success_true_requires_done [of "default_ActionResult\<lparr>is_done := True, success := Some True\<rparr>"]
        C1_success_true_requires_done [of "default_ActionResult\<lparr>success := Some True\<rparr>"]
        C1_success_true_requires_done [of default_ActionResult]
  by (simp add: validate_success_requires_done_def default_ActionResult_def)

subsection \<open>Visibility\<close>

lemma node_visibility_iff:
  "node_visibility pf sty bds = False \<longleftrightarrow>
     (\<exists>s. sty = Some s \<and>
          (display s = ''none'' \<or> visibility s = ''hidden''
           \<or> (\<exists>v. pf (opacity s) = Some v \<and> pyfloat_le_zero v)))
     \<or> (\<exists>b. bds = Some b \<and> (rect_width b \<le> 0 \<or> rect_height b \<le> 0))"
  by (auto simp add: node_visibility_def styles_is_visible_def Let_def
           split: option.splits if_splits)

lemma is_visible_make_dom_node:
  "is_visible (make_dom_node lk raw nid bid parent d i)
   = node_visibility (float_of lk)
       (case snapshot_lookup lk bid of None \<Rightarrow> None | Some e \<Rightarrow> se_styles e)
       (case snapshot_lookup lk bid of None \<Rightarrow> None | Some e \<Rightarrow> se_bounds e)"
proof -
  have "is_visible (make_dom_node lk raw nid bid parent d i)
        = is_visible (base_dom_node lk raw nid bid parent d)"
    by (simp add: make_dom_node_def mark_scrollable_def mark_editable_def assign_index_def)
  then show ?thesis
    by (simp add: base_dom_node_def Let_def)
qed

text \<open>
  C5: the visibility computed for a processed node is false exactly when its style data
  have the display "none", or the visibility "hidden", or an opacity that parses to a number
  that is at most 0, or when its bounds exist with a non-positive width or height; in every
  other case, also with no style data and no bounds at all, the node is visible.
\<close>

theorem C5_visibility:
  "is_visible (make_dom_node lk raw nid bid parent d i) = False \<longleftrightarrow>
     (\<exists>e s. snapshot_lookup lk bid = Some e \<and> se_styles e = Some s \<and>
          (display s = ''none'' \<or> visibility s = ''hidden''
           \<or> (\<exists>v. float_of lk (opacity s) = Some v \<and> pyfloat_le_zero v)))
     \<or> (\<exists>e b. snapshot_lookup lk bid = Some e \<and> se_bounds e = Some b \<and>
          (rect_width b \<le> 0 \<or> rect_height b \<le> 0))"
  unfolding is_visible_make_dom_node node_visibility_iff
  by (cases "snapshot_lookup lk bid") auto

subsection \<open>Serializer: page height and paging indicators\<close>

lemma foldl_page_height_step:
  "foldl page_height_step m xs = Max (set (m # node_bottoms xs))"
proof (induction xs arbitrary: m)
  case Nil
  then show ?case by (simp add: node_bottoms_def map_filter_simps)
next
  case (Cons nd xs)
  show ?case
  proof (cases "nd_bounds nd")
    case None
    then show ?thesis using Cons.IH [of m]
      by (simp add: page_height_step_def node_bottoms_def map_filter_simps)
  next
    case (Some b)
    have "Max (insert (max m (rect_y b + rect_height b)) (set (node_bottoms xs)))
        = Max (insert m (insert (rect_y b + rect_height b) (set (node_bottoms xs))))"
      by (cases "set (node_bottoms xs) = {}") (simp_all add: max.assoc del: set_empty)
    then show ?thesis using Some Cons.IH [of "max m (rect_y b + rect_height b)"]
      by (simp add: page_height_step_def node_bottoms_def map_filter_simps)
  qed
qed

lemma get_page_height_Max:
  "get_page_height ds =
     Max (set (real_of_int (viewport_height ds) # node_bottoms (dict_values (nodes ds))))"
  by (simp only: get_page_height_def foldl_page_height_step)

lemma serialize_paging:
  assumes "serialize fmt1 max_length inc ds = Inr s"
  shows "pages_above s =
           (if viewport_height ds > 0 then scroll_y ds / real_of_int (viewport_height ds) else 0)"
    and "pages_below s =
           (if viewport_height ds > 0
            then max 0 ((get_page_height ds - scroll_y ds - real_of_int (viewport_height ds))
                        / real_of_int (viewport_height ds))
            else 0)"
    and "has_content_above s = (pages_above s > 0.1)"
    and "has_content_below s = (pages_below s > 0.1)"
  using assms
  by (auto simp add: serialize_def Let_def split: sum.splits prod.splits)

lemma serialize_scrolled_state:
  "serialize fmt_fixed 40000 None scrolled_state = Inr scrolled_result"
  by (simp add: serialize_def scrolled_state_def tall_node_def Let_def calculate_stats_def
        initial_stats_def stats_step_def get_page_height_def page_height_step_def
        get_sorted_elements_def build_lines_def truncate_representation_def newline_def
        lower_def lower_char_def fmt_fixed_def resolve_include_attributes_def
        scrolled_result_def)

lemma page_height_scrolled_state:
  "get_page_height scrolled_state = 2000"
  by (simp add: get_page_height_def page_height_step_def scrolled_state_def tall_node_def)

text \<open>
  C9, as stated, fails where the viewport height is not positive: the serializer guards
  both quotients with \<^verbatim>\<open>if viewport_height > 0 else 0\<close>.  With scrollY = 800 and a
  viewport height of -720 the quotient of the claim is -10/9 and the claimed pagesBelow is
  max(0, (-720 - 800 + 720) / -720) = 10/9, with a set flag; the code returns 0 for
  both values and no flag.
\<close>

theorem C9_counterexample:
  "\<not> isl (serialize fmt_fixed 40000 None negative_viewport_state)
   \<and> pages_above (projr (serialize fmt_fixed 40000 None negative_viewport_state)) = 0
   \<and> scroll_y negative_viewport_state / real_of_int (viewport_height negative_viewport_state)
       = - (10 / 9)
   \<and> pages_below (projr (serialize fmt_fixed 40000 None negative_viewport_state)) = 0
   \<and> max 0 ((get_page_height negative_viewport_state - scroll_y negative_viewport_state
              - real_of_int (viewport_height negative_viewport_state))
             / real_of_int (viewport_height negative_viewport_state)) = 10 / 9
   \<and> \<not> has_content_below (projr (serialize fmt_fixed 40000 None negative_viewport_state))"
  by (simp add: serialize_def negative_viewport_state_def Let_def calculate_stats_def
        initial_stats_def get_page_height_def get_sorted_elements_def build_lines_def
        truncate_representation_def newline_def fmt_fixed_def resolve_include_attributes_def)

text \<open>
  C9 (amended): for every serialization that returns, the page height is the maximum of the
  viewport height and the bottom edges (y + height) of the nodes that have bounds; when the
  viewport height is positive, pagesAbove is scrollY / viewportHeight and pagesBelow is
  max(0, (pageHeight - scrollY - viewportHeight) / viewportHeight), and when it is not
  positive both are 0; hasContentAbove and hasContentBelow are true exactly when the
  corresponding value exceeds 0.1.  In particular scrollY = 800, viewportHeight = 720 and
  pageHeight = 2000 give pagesAbove = 10/9 (about 1.11) and pagesBelow = 2/3 (about 0.67)
  with both flags true.
\<close>

theorem C9_paging:
  assumes "serialize fmt1 max_length inc ds = Inr s"
  shows "get_page_height ds =
           Max (set (real_of_int (viewport_height ds) # node_bottoms (dict_values (nodes ds))))
         \<and> (viewport_height ds > 0 \<longrightarrow>
              pages_above s = scroll_y ds / real_of_int (viewport_height ds)
              \<and> pages_below s =
                  max 0 ((get_page_height ds - scroll_y ds - real_of_int (viewport_height ds))
                         / real_of_int (viewport_height ds)))
         \<and> (viewport_height ds \<le> 0 \<longrightarrow> pages_above s = 0 \<and> pages_below s = 0)
         \<and> has_content_above s = (pages_above s > 0.1)
         \<and> has_content_below s = (pages_below s > 0.1)
         \<and> (scroll_y ds = 800 \<and> viewport_height ds = 720 \<and> get_page_height ds = 2000 \<longrightarrow>
              pages_above s = 10 / 9 \<and> \<bar>pages_above s - 1.11\<bar> < 0.01
              \<and> pages_below s = 2 / 3 \<and> \<bar>pages_below s - 0.67\<bar> < 0.01
              \<and> has_content_above s \<and> has_content_below s)"
proof -
  note p = serialize_paging [OF assms]
  have ex: "pages_above s = 10 / 9 \<and> \<bar>pages_above s - 1.11\<bar> < 0.01
              \<and> pages_below s = 2 / 3 \<and> \<bar>pages_below s - 0.67\<bar> < 0.01
              \<and> has_content_above s \<and> has_content_below s"
    if "scroll_y ds = 800" "viewport_height ds = 720" "get_page_height ds = 2000"
    using p that by simp
  have c1: "get_page_height ds =
           Max (set (real_of_int (viewport_height ds) # node_bottoms (dict_values (nodes ds))))"
    by (rule get_page_height_Max)
  have c2: "viewport_height ds > 0 \<longrightarrow>
              pages_above s = scroll_y ds / real_of_int (viewport_height ds)
              \<and> pages_below s =
                  max 0 ((get_page_height ds - scroll_y ds - real_of_int (viewport_height ds))
                         / real_of_int (viewport_height ds))"
    using p(1,2) by simp
  have c3: "viewport_height ds \<le> 0 \<longrightarrow> pages_above s = 0 \<and> pages_below s = 0"
    using p(1,2) by simp
  from c1 c2 c3 p(3) p(4) ex show ?thesis
    by blast
qed

theorem C9_paging_witness:
  "serialize fmt_fixed 40000 None scrolled_state = Inr scrolled_result
   \<and> scroll_y scrolled_state = 800 \<and> viewport_height scrolled_state = 720
   \<and> get_page_height scrolled_state = 2000
   \<and> pages_above scrolled_result = 10 / 9 \<and> \<bar>pages_above scrolled_result - 1.11\<bar> < 0.01
   \<and> pages_below scrolled_result = 2 / 3 \<and> \<bar>pages_below scrolled_result - 0.67\<bar> < 0.01
   \<and> has_content_above scrolled_result \<and> has_content_below scrolled_result"
proof -
  have a: "scroll_y scrolled_state = 800" "viewport_height scrolled_state = 720"
    by (simp_all add: scrolled_state_def)
  from C9_paging [OF serialize_scrolled_state] a page_height_scrolled_state
  have "pages_above scrolled_result = 10 / 9 \<and> \<bar>pages_above scrolled_result - 1.11\<bar> < 0.01
        \<and> pages_below scrolled_result = 2 / 3 \<and> \<bar>pages_below scrolled_result - 0.67\<bar> < 0.01
        \<and> has_content_above scrolled_result \<and> has_content_below scrolled_result"
    by blast
  with a serialize_scrolled_state page_height_scrolled_state show ?thesis
    by blast
qed

subsection \<open>Serializer: truncation\<close>

lemma length_py_take:
  "0 \<le> m \<Longrightarrow> int (length (py_take m s)) \<le> m"
  by (simp add: py_take_def)

lemma truncate_representation_bound:
  "0 \<le> m \<Longrightarrow> int (length (fst (truncate_representation m s))) \<le> m"
  by (simp add: truncate_representation_def length_py_take)

lemma truncate_representation_flag:
  "snd (truncate_representation m s) = (int (length s) > m)"
  by (simp add: truncate_representation_def)

lemma serialize_length_bound:
  assumes "serialize fmt1 max_length inc ds = Inr s" and "0 \<le> max_length"
  shows "int (length (llm_representation s)) \<le> max_length"
proof -
  from assms(1) obtain t b where "truncate_representation max_length t = (llm_representation s, b)"
    by (auto simp add: serialize_def Let_def split: sum.splits prod.splits)
  then have "llm_representation s = fst (truncate_representation max_length t)"
    by simp
  then show ?thesis
    using truncate_representation_bound [OF assms(2), of t] by simp
qed

text \<open>
  C4: the text of the returned SerializedDOM never exceeds the maximum length; the second
  half of the claim does not hold of the code.  On the empty DOM state with a maximum
  length of 5 the untruncated text has 29 characters, the local variable
  \<^verbatim>\<open>truncated\<close> is set, and the returned SerializedDOM is the record below: it holds
  the cut text and no truncation flag, for the dataclass has no such field.
\<close>

theorem C4_truncated_flag_not_returned:
  "length (join newline (build_lines fmt_fixed default_include_attributes False False 0 [])) = 29
   \<and> truncate_representation 5
        (join newline (build_lines fmt_fixed default_include_attributes False False 0 []))
       = (''[Star'', True)
   \<and> serialize fmt_fixed 5 None empty_state =
       Inr \<lparr>llm_representation = ''[Star'', total_elements = 0, sd_interactive_elements = 0,
            visible_elements = 0, links_count = 0, iframes_count = 0, scroll_containers = 0,
            has_content_above = False, has_content_below = False, pages_above = 0,
            pages_below = 0, sd_selector_map = []\<rparr>"
  by (simp add: serialize_def empty_state_def Let_def calculate_stats_def initial_stats_def
        get_page_height_def get_sorted_elements_def build_lines_def
        truncate_representation_def newline_def resolve_include_attributes_def py_take_def)

subsection \<open>New-element marking\<close>

text \<open>
  \<^verbatim>\<open>mark_new_elements\<close> itself does what its docstring says, relative to the state it
  is given: with equal URLs an element is marked exactly when its index is absent from the
  given previous state, and with different URLs nothing changes.
\<close>

lemma mark_new_elements_same_url:
  assumes "bs_url self = bs_url prev"
  shows "map ie_is_new (bs_elements (mark_new_elements self (Some prev)))
         = map (\<lambda>e. ie_index e \<notin> set (map ie_index (bs_elements prev))) (bs_elements self)"
  using assms by (simp add: mark_new_elements_def Let_def comp_def)

lemma mark_new_elements_other_url:
  "bs_url self \<noteq> bs_url prev \<Longrightarrow> mark_new_elements self (Some prev) = self"
  by (simp add: mark_new_elements_def)

text \<open>
  C3 does not hold of \<^verbatim>\<open>get_state\<close>: the fresh state is compared with
  \<^verbatim>\<open>_previous_state\<close>, which at that moment is the snapshot before the immediately
  preceding one (or nothing, on the second refresh).  On three forced refreshes of one URL
  with the elements [1], [1, 2], [1, 2], the second state does not mark element 2 although
  it is absent from the first snapshot, and the third state marks element 2 as new although
  it is present in the immediately preceding snapshot.
\<close>

theorem C3_get_state_marks_against_older_snapshot:
  "map ie_is_new (bs_elements (projr (fst (get_state session_after_1 True (Inr snapshot2)))))
     = [False, False]
   \<and> map ie_is_new (bs_elements (projr (fst (get_state session_after_2 True (Inr snapshot3)))))
     = [False, True]
   \<and> current_state session_after_2 = Some snapshot2
   \<and> previous_state session_after_2 = Some snapshot1
   \<and> ie_index link_el \<in> set (map ie_index (bs_elements snapshot2))
   \<and> ie_index link_el \<notin> set (map ie_index (bs_elements snapshot1))
   \<and> bs_url snapshot1 = bs_url snapshot2 \<and> bs_url snapshot2 = bs_url snapshot3"
  by (simp add: get_state_def session_after_1_def session_after_2_def new_session_def
        mark_new_elements_def snapshot1_def snapshot2_def snapshot3_def button_el_def
        link_el_def Let_def)

subsection \<open>Step loop: parse failures and the failure budget\<close>

lemma parse_response_no_actions:
  assumes "dict_get obj ''action'' = None \<or> dict_get obj ''action'' = Some (JList [])"
  shows "parse_response (Some (JObj obj))
         = Inl (LLMResponseError ''Failed to parse response: No actions in response'')"
  using assms by (auto simp add: parse_response_def parse_body_def)

lemma execute_step_no_actions:
  assumes "browser_state env = Inr page"
    and "llm_complete env = Inr (Some (JObj obj))"
    and "dict_get obj ''action'' = None \<or> dict_get obj ''action'' = Some (JList [])"
  shows "execute_step settings env a
         = Inl (LLMResponseError ''Failed to parse response: No actions in response'')"
  using assms(1,2) parse_response_no_actions [OF assms(3)]
  by (simp add: execute_step_def)

text \<open>
  C6: in a step whose oracle response has zero actions (the key \<^verbatim>\<open>action\<close> is missing or
  holds an empty list), parsing raises an \<^verbatim>\<open>LLMResponseError\<close>, which is recoverable; the
  step leaves the loop body with the consecutive-failure counter one higher; the run is
  aborted with \<^verbatim>\<open>MaxFailuresReachedError\<close> exactly when the raised counter has reached
  \<^verbatim>\<open>max_failures\<close>, and otherwise the loop goes on with the next step.
\<close>

theorem C6_zero_actions_failure:
  assumes "browser_state (envs (n_steps a)) = Inr page"
    and "llm_complete (envs (n_steps a)) = Inr (Some (JObj obj))"
    and "dict_get obj ''action'' = None \<or> dict_get obj ''action'' = Some (JList [])"
    and "\<not> is_stopped a" and "\<not> is_paused a"
    and "\<not> ag_is_done a" and "n_steps a < limit"
  shows "(\<exists>e. parse_response (Some (JObj obj)) = Inl e \<and> recoverable e
              \<and> execute_step settings (envs (n_steps a)) a = Inl e)
         \<and> (consecutive_failures a + 1 \<ge> max_failures settings \<longrightarrow>
              run_loop settings limit envs a
              = Raised (MaxFailuresReachedError (max_failures settings))
                  (a\<lparr>consecutive_failures := consecutive_failures a + 1\<rparr>))
         \<and> (consecutive_failures a + 1 < max_failures settings \<longrightarrow>
              run_loop settings limit envs a
              = run_loop settings limit envs
                  (a\<lparr>consecutive_failures := consecutive_failures a + 1,
                     n_steps := n_steps a + 1\<rparr>))"
proof -
  let ?e = "LLMResponseError ''Failed to parse response: No actions in response''"
  have p: "parse_response (Some (JObj obj)) = Inl ?e"
    by (rule parse_response_no_actions [OF assms(3)])
  have s: "execute_step settings (envs (n_steps a)) a = Inl ?e"
    by (rule execute_step_no_actions [OF assms(1) assms(2) assms(3)])
  have it: "loop_iteration settings (envs (n_steps a)) a
            = (if consecutive_failures a + 1 \<ge> max_failures settings
               then Abort (MaxFailuresReachedError (max_failures settings))
                      (a\<lparr>consecutive_failures := consecutive_failures a + 1\<rparr>)
               else Continue (a\<lparr>consecutive_failures := consecutive_failures a + 1,
                                n_steps := n_steps a + 1\<rparr>))"
    using assms(4,5) s by (simp add: loop_iteration_def Let_def)
  have unfold: "run_loop settings limit envs a
            = (case loop_iteration settings (envs (n_steps a)) a of
                 Continue a' \<Rightarrow> run_loop settings limit envs a'
               | Break a' \<Rightarrow> Returned a'
               | Abort e a' \<Rightarrow> Raised e a'
               | Wait \<Rightarrow> Never_returns)"
    using assms(6,7) by (subst run_loop.simps) simp
  have c1: "\<exists>e. parse_response (Some (JObj obj)) = Inl e \<and> recoverable e
              \<and> execute_step settings (envs (n_steps a)) a = Inl e"
    using p s by simp
  have c2: "consecutive_failures a + 1 \<ge> max_failures settings \<longrightarrow>
              run_loop settings limit envs a
              = Raised (MaxFailuresReachedError (max_failures settings))
                  (a\<lparr>consecutive_failures := consecutive_failures a + 1\<rparr>)"
    using unfold it by simp
  have c3: "consecutive_failures a + 1 < max_failures settings \<longrightarrow>
              run_loop settings limit envs a
              = run_loop settings limit envs
                  (a\<lparr>consecutive_failures := consecutive_failures a + 1,
                     n_steps := n_steps a + 1\<rparr>)"
    using unfold it by simp
  from c1 c2 c3 show ?thesis by blast
qed

theorem C6_zero_actions_failure_witness:
  "run_loop two_step_settings 5 (\<lambda>n. no_action_env) (new_agent\<lparr>consecutive_failures := 2\<rparr>)
     = Raised (MaxFailuresReachedError 3) (new_agent\<lparr>consecutive_failures := 3\<rparr>)
   \<and> run_loop two_step_settings 5 (\<lambda>n. no_action_env) new_agent
     = run_loop two_step_settings 5 (\<lambda>n. no_action_env)
         (new_agent\<lparr>consecutive_failures := 1, n_steps := 1\<rparr>)"
proof -
  have e: "browser_state no_action_env = Inr (''https://a.test/'', ''A'')"
    "llm_complete no_action_env = Inr (Some (JObj [(''action'', JList [])]))"
    by (simp_all add: no_action_env_def)
  have d: "dict_get [(''action'', JList [])] ''action'' = None
           \<or> dict_get [(''action'', JList [])] ''action'' = Some (JList [])"
    by simp
  have "run_loop two_step_settings 5 (\<lambda>n. no_action_env) (new_agent\<lparr>consecutive_failures := 2\<rparr>)
     = Raised (MaxFailuresReachedError 3) (new_agent\<lparr>consecutive_failures := 3\<rparr>)"
    using C6_zero_actions_failure [of "\<lambda>n. no_action_env" "new_agent\<lparr>consecutive_failures := 2\<rparr>"
            "(''https://a.test/'', ''A'')" "[(''action'', JList [])]" 5 two_step_settings] e d
    by (simp add: new_agent_def two_step_settings_def)
  moreover have "run_loop two_step_settings 5 (\<lambda>n. no_action_env) new_agent
     = run_loop two_step_settings 5 (\<lambda>n. no_action_env)
         (new_agent\<lparr>consecutive_failures := 1, n_steps := 1\<rparr>)"
    using C6_zero_actions_failure [of "\<lambda>n. no_action_env" new_agent
            "(''https://a.test/'', ''A'')" "[(''action'', JList [])]" 5 two_step_settings] e d
    by (simp add: new_agent_def two_step_settings_def)
  ultimately show ?thesis by blast
qed

subsection \<open>Step loop: steps that execute no action\<close>

lemma execute_actions_loop_all_empty:
  "\<forall>a \<in> set acts. a = [] \<Longrightarrow> execute_actions_loop env i acts results = results"
  by (induction acts arbitrary: i) simp_all

lemma set_py_take: "set (py_take m xs) \<subseteq> set xs"
  by (simp add: py_take_def set_take_subset)

lemma execute_actions_all_empty:
  assumes "\<forall>a \<in> set acts. a = []"
  shows "execute_actions settings env acts = [default_ActionResult]"
proof -
  have "\<forall>a \<in> set (py_take (max_actions_per_step settings) acts). a = []"
    using assms set_py_take [of "max_actions_per_step settings" acts] by blast
  then show ?thesis
    by (simp add: execute_actions_def execute_actions_loop_all_empty)
qed

lemma dict_entries_all_empty:
  "\<forall>e \<in> set entries. e = JObj [] \<Longrightarrow> \<forall>a \<in> set (dict_entries entries). a = []"
  by (induction entries rule: dict_entries.induct) simp_all

text \<open>
  C10: when the action list of the oracle is non-empty and every entry is an empty dict, no
  action is executed: \<^verbatim>\<open>_execute_actions\<close> returns the single default ActionResult, with
  no error and \<^verbatim>\<open>is_done=False\<close>, and the step ends normally with the
  consecutive-failure counter reset to zero, whatever it was before, and without touching
  the done flag.
\<close>

theorem C10_empty_actions_reset_failures:
  assumes "entries \<noteq> []" and "\<forall>e \<in> set entries. e = JObj []"
    and "browser_state env = Inr page"
    and "llm_complete env = Inr (Some (JObj obj))"
    and "dict_get obj ''action'' = Some (JList entries)"
    and "new_AgentOutput (dict_get obj ''thinking'') (dict_get obj ''evaluation_previous_goal'')
           (dict_get obj ''memory'') (dict_get obj ''next_goal'') (dict_entries entries) = Inr out"
  shows "execute_actions settings env (dict_entries entries) = [default_ActionResult]
         \<and> error default_ActionResult = None \<and> \<not> is_done default_ActionResult
         \<and> (\<exists>a'. execute_step settings env a = Inr a'
                 \<and> consecutive_failures a' = 0
                 \<and> last_result a' = Some [default_ActionResult]
                 \<and> ag_is_done a' = ag_is_done a
                 \<and> n_steps a' = n_steps a)"
proof -
  have ea: "execute_actions settings env (dict_entries entries) = [default_ActionResult]"
    by (rule execute_actions_all_empty [OF dict_entries_all_empty [OF assms(2)]])
  have acts: "action out = dict_entries entries"
    using assms(6) by (auto simp add: new_AgentOutput_def split: sum.splits)
  have pr: "parse_response (Some (JObj obj)) = Inr out"
    using assms(1,5,6) by (simp add: parse_response_def parse_body_def)
  have d: "error default_ActionResult = None" "\<not> is_done default_ActionResult"
    by (simp_all add: default_ActionResult_def)
  have "\<exists>a'. execute_step settings env a = Inr a'
                 \<and> consecutive_failures a' = 0
                 \<and> last_result a' = Some [default_ActionResult]
                 \<and> ag_is_done a' = ag_is_done a
                 \<and> n_steps a' = n_steps a"
    using assms(3,4) pr acts ea d by (simp add: execute_step_def Let_def)
  with ea d show ?thesis by blast
qed

theorem C10_empty_actions_reset_failures_witness:
  "execute_actions two_step_settings empty_action_env (dict_entries [JObj []])
     = [default_ActionResult]
   \<and> error default_ActionResult = None \<and> \<not> is_done default_ActionResult
   \<and> (\<exists>a'. execute_step two_step_settings empty_action_env
               (new_agent\<lparr>consecutive_failures := 2\<rparr>) = Inr a'
           \<and> consecutive_failures a' = 0
           \<and> last_result a' = Some [default_ActionResult]
           \<and> ag_is_done a' = ag_is_done (new_agent\<lparr>consecutive_failures := 2\<rparr>)
           \<and> n_steps a' = n_steps (new_agent\<lparr>consecutive_failures := 2\<rparr>))"
proof -
  have e: "browser_state empty_action_env = Inr (''https://a.test/'', ''A'')"
    "llm_complete empty_action_env = Inr (Some (JObj [(''action'', JList [JObj []])]))"
    by (simp_all add: empty_action_env_def)
  have p1: "[JObj []] \<noteq> []"
    by simp
  have p2: "\<forall>e \<in> set [JObj []]. e = JObj []"
    by simp
  have p5: "dict_get [(''action'', JList [JObj []])] ''action'' = Some (JList [JObj []])"
    by simp
  have n: "new_AgentOutput (dict_get [(''action'', JList [JObj []])] ''thinking'')
             (dict_get [(''action'', JList [JObj []])] ''evaluation_previous_goal'')
             (dict_get [(''action'', JList [JObj []])] ''memory'')
             (dict_get [(''action'', JList [JObj []])] ''next_goal'') (dict_entries [JObj []])
           = Inr \<lparr>thinking = None, evaluation_previous_goal = None, memory = None,
                  next_goal = None, action = [[]]\<rparr>"
    by (simp add: new_AgentOutput_def)
  show ?thesis
    by (rule C10_empty_actions_reset_failures [OF p1 p2 e(1) e(2) p5 n])
qed

subsection \<open>Step loop: forced completion at the step limit\<close>

lemma two_step_loop:
  "run_loop two_step_settings 2 two_step_envs (new_agent\<lparr>n_steps := 0\<rparr>)
   = Returned agent_after_two_steps"
  by (simp add: two_step_settings_def new_agent_def two_step_envs_def loop_iteration_def
        execute_step_def extract_env_def empty_action_env_def parse_response_def parse_body_def
        new_AgentOutput_def execute_actions_def py_take_def Let_def default_ActionResult_def
        agent_after_two_steps_def)

text \<open>
  C7, as stated, fails in its last part: the synthesized result takes the extracted content
  of the last result of the last recorded step only.  In the run below step 0 extracted the
  text "data" and step 1 executed nothing; at the limit of two steps the forced result
  carries the fallback text although extracted content exists in the history.
\<close>

theorem C7_counterexample:
  "map ag_is_done (case two_step_run of Returned a \<Rightarrow> [a] | _ \<Rightarrow> []) = [True]
   \<and> map (\<lambda>a. map extracted_content (h_results (last (history a))))
        (case two_step_run of Returned a \<Rightarrow> [a] | _ \<Rightarrow> [])
      = [[Some ''Task incomplete - max steps reached'']]
   \<and> extracted_contents (history agent_after_two_steps) = [''data'']"
  by (simp add: two_step_run_def run_def two_step_settings_def new_agent_def
        two_step_envs_def loop_iteration_def execute_step_def extract_env_def
        empty_action_env_def parse_response_def parse_body_def new_AgentOutput_def
        execute_actions_def py_take_def Let_def default_ActionResult_def
        force_completion_def final_result_def new_ActionResult_def
        validate_success_requires_done_def extracted_contents_def agent_after_two_steps_def)

text \<open>
  C7 (amended): when the loop of a run ends at \<^verbatim>\<open>max_steps\<close> with no terminal action
  having occurred and the final state query of the browser succeeds, the run returns
  without raising, the final state is done with \<^verbatim>\<open>success=False\<close>, and one history
  entry is added whose single result is terminal, unsuccessful and has a non-empty
  extracted content: the extracted content of the last result of the last recorded step
  when that is non-empty, otherwise the text "Task incomplete - max steps reached".
\<close>

theorem C7_forced_completion:
  assumes "limit = (case max_steps_arg of None \<Rightarrow> max_steps settings
                    | Some m \<Rightarrow> (if m = 0 then max_steps settings else m))"
    and "run_loop settings limit envs (a0\<lparr>n_steps := 0\<rparr>) = Returned a"
    and "n_steps a \<ge> limit" and "\<not> ag_is_done a"
    and "final_state = Inr page"
    and "c = (if truthy (final_result (history a)) then the (final_result (history a))
              else ''Task incomplete - max steps reached'')"
  shows "run settings max_steps_arg envs final_state a0
         = Returned (a\<lparr>history := history a @
                          [\<lparr>h_model_output = None, h_results = [forced_result c],
                            h_url = Some (fst page), h_title = Some (snd page)\<rparr>],
                        ag_is_done := True, ag_success := Some False\<rparr>)
         \<and> c \<noteq> [] \<and> is_done (forced_result c) \<and> success (forced_result c) = Some False
         \<and> extracted_content (forced_result c) = Some c"
proof -
  have ne: "c \<noteq> []"
    using assms(6) by (cases "final_result (history a)") auto
  have fr: "new_ActionResult True (Some False) (Some c)
              (Some ''Task incomplete due to step limit'') None = Inr (forced_result c)"
    by (simp add: new_ActionResult_def validate_success_requires_done_def forced_result_def
          default_ActionResult_def)
  have fc: "force_completion final_state a
            = Inr (a\<lparr>history := history a @
                          [\<lparr>h_model_output = None, h_results = [forced_result c],
                            h_url = Some (fst page), h_title = Some (snd page)\<rparr>],
                     ag_is_done := True, ag_success := Some False\<rparr>)"
    using assms(5) fr by (simp add: force_completion_def Let_def assms(6) [symmetric])
  have r: "run settings max_steps_arg envs final_state a0
         = Returned (a\<lparr>history := history a @
                          [\<lparr>h_model_output = None, h_results = [forced_result c],
                            h_url = Some (fst page), h_title = Some (snd page)\<rparr>],
                        ag_is_done := True, ag_success := Some False\<rparr>)"
    using assms(2,3,4) fc by (simp add: run_def Let_def assms(1) [symmetric])
  have f: "is_done (forced_result c)" "success (forced_result c) = Some False"
    "extracted_content (forced_result c) = Some c"
    by (simp_all add: forced_result_def default_ActionResult_def)
  from r ne f show ?thesis by blast
qed

theorem C7_forced_completion_witness:
  "run two_step_settings None two_step_envs (Inr (''https://a.test/'', ''A'')) new_agent
   = Returned (agent_after_two_steps
        \<lparr>history := history agent_after_two_steps @
           [\<lparr>h_model_output = None,
             h_results = [forced_result ''Task incomplete - max steps reached''],
             h_url = Some ''https://a.test/'', h_title = Some ''A''\<rparr>],
         ag_is_done := True, ag_success := Some False\<rparr>)"
proof -
  have l: "(2::int) = (case None of None \<Rightarrow> max_steps two_step_settings
                    | Some m \<Rightarrow> (if m = 0 then max_steps two_step_settings else m))"
    by (simp add: two_step_settings_def)
  have n: "n_steps agent_after_two_steps \<ge> 2" "\<not> ag_is_done agent_after_two_steps"
    by (simp_all add: agent_after_two_steps_def)
  have c: "''Task incomplete - max steps reached''
           = (if truthy (final_result (history agent_after_two_steps))
              then the (final_result (history agent_after_two_steps))
              else ''Task incomplete - max steps reached'')"
    by (simp add: agent_after_two_steps_def final_result_def default_ActionResult_def)
  from C7_forced_completion [OF l two_step_loop n refl c]
  show ?thesis by simp
qed

subsection \<open>Loop detection of the tutorial agent\<close>

lemma count_repeated_replicate:
  "count_repeated_actions (replicate j s) s = int j"
  by (simp add: count_repeated_actions_def)

lemma track_action_replicate:
  "j < 10 \<Longrightarrow> track_action (replicate j s) s = replicate (Suc j) s"
  by (simp add: track_action_def Let_def replicate_append_same)

lemma capture_loop_forced:
  assumes "a \<noteq> []"
    and "count_repeated_actions recent (action_signature dumps a) \<ge> threshold + 2"
  shows "capture_loop dumps env threshold i (a # rest) recent results
         = (recent, results @ [loop_result])"
  using assms by (simp add: is_action_repeated_def Let_def)

lemma capture_loop_single_tracks:
  assumes "a \<noteq> []"
    and "count_repeated_actions recent (action_signature dumps a) < threshold + 2"
  shows "fst (capture_loop dumps env threshold i [a] recent results)
         = track_action recent (action_signature dumps a)"
  using assms by (simp add: Let_def split: sum.splits option.splits)

lemma tutorial_step_forced:
  assumes "browser_state env = Inr page" and "llm_complete env = Inr content"
    and "parse_response content = Inr out" and "action out = [a]" and "a \<noteq> []"
    and "count_repeated_actions (recent_actions ag) (action_signature dumps a)
           \<ge> max_repeated_actions ag + 2"
  shows "\<exists>ag'. tutorial_execute_step dumps env ag = Inr ag'
           \<and> ag_is_done ag' \<and> ag_success ag' = Some False
           \<and> last_result ag' = Some [loop_result]
           \<and> recent_actions ag' = recent_actions ag
           \<and> n_steps ag' = n_steps ag"
proof -
  have c: "capture_loop dumps env (max_repeated_actions ag) 0 [a] (recent_actions ag) []
           = (recent_actions ag, [loop_result])"
    using capture_loop_forced [OF assms(5) assms(6), of env 0 "[]" "[]"] by simp
  have e: "execute_and_capture_actions dumps env (max_repeated_actions ag) (recent_actions ag) [a]
           = (recent_actions ag, [loop_result])"
    by (simp add: execute_and_capture_actions_def c del: capture_loop.simps)
  have l: "is_done loop_result" "success loop_result = Some False" "error loop_result = None"
    by (simp_all add: loop_result_def default_ActionResult_def)
  show ?thesis
    using assms(1-4) e l by (simp add: tutorial_execute_step_def Let_def)
qed

lemma tutorial_step_tracked:
  assumes "browser_state env = Inr page" and "llm_complete env = Inr content"
    and "parse_response content = Inr out" and "action out = [a]" and "a \<noteq> []"
    and "count_repeated_actions (recent_actions ag) (action_signature dumps a)
           < max_repeated_actions ag + 2"
  shows "\<exists>ag'. tutorial_execute_step dumps env ag = Inr ag'
           \<and> recent_actions ag' = track_action (recent_actions ag) (action_signature dumps a)
           \<and> max_repeated_actions ag' = max_repeated_actions ag
           \<and> is_stopped ag' = is_stopped ag
           \<and> n_steps ag' = n_steps ag"
proof -
  obtain r1 rs where c: "capture_loop dumps env (max_repeated_actions ag) 0 [a] (recent_actions ag) []
           = (r1, rs)"
    by (cases "capture_loop dumps env (max_repeated_actions ag) 0 [a] (recent_actions ag) []")
  have r1: "r1 = track_action (recent_actions ag) (action_signature dumps a)"
    using capture_loop_single_tracks [OF assms(5) assms(6), of env 0 "[]"] c by simp
  have e: "execute_and_capture_actions dumps env (max_repeated_actions ag) (recent_actions ag) [a]
           = (r1, if rs \<noteq> [] then rs else [default_ActionResult])"
    by (simp add: execute_and_capture_actions_def c del: capture_loop.simps)
  show ?thesis
    using assms(1-4) e r1
    by (simp add: tutorial_execute_step_def Let_def split: option.splits)
qed

lemma proposesD:
  assumes "proposes env a"
  obtains page content out where "browser_state env = Inr page"
    and "llm_complete env = Inr content" and "parse_response content = Inr out"
    and "action out = [a]"
  using assms by (auto simp add: proposes_def split: sum.splits)

lemma tutorial_run_loop_done:
  "ag_is_done ag \<Longrightarrow> tutorial_run_loop dumps budget limit envs ag = TReturned ag"
  by (subst tutorial_run_loop.simps) simp

lemma tutorial_run_loop_step:
  assumes "\<not> ag_is_done ag" and "n_steps ag < limit" and "\<not> is_stopped ag"
    and "tutorial_execute_step dumps (envs (n_steps ag)) ag = Inr ag'"
  shows "tutorial_run_loop dumps budget limit envs ag
         = tutorial_run_loop dumps budget limit envs (ag'\<lparr>n_steps := n_steps ag' + 1\<rparr>)"
  using assms by (subst tutorial_run_loop.simps) (simp add: tutorial_iteration_def)

lemma tutorial_run_repeats:
  assumes "j \<le> T"
    and "a \<noteq> []"
    and "\<forall>n. 0 \<le> n \<and> n \<le> int T \<longrightarrow> proposes (envs n) a"
    and "T \<le> 10" and "int T < limit"
  shows "\<forall>ag. recent_actions ag = replicate j (action_signature dumps a)
              \<and> n_steps ag = int j \<and> \<not> is_stopped ag
              \<and> int T = max_repeated_actions ag + 2
          \<longrightarrow> (\<exists>ag'. tutorial_run_loop dumps budget limit envs ag = TReturned ag'
                  \<and> ag_is_done ag' \<and> n_steps ag' \<le> int T + 1
                  \<and> (\<not> ag_is_done ag \<and> n_steps ag' = int T + 1 \<longrightarrow>
                       ag_success ag' = Some False \<and> last_result ag' = Some [loop_result]
                       \<and> recent_actions ag' = replicate T (action_signature dumps a)))"
  using assms(1)
proof (induction rule: inc_induct)
  case base
  show ?case
  proof (intro allI impI)
    fix ag :: tutorial_agent
    assume h: "recent_actions ag = replicate T (action_signature dumps a)
              \<and> n_steps ag = int T \<and> \<not> is_stopped ag
              \<and> int T = max_repeated_actions ag + 2"
    show "\<exists>ag'. tutorial_run_loop dumps budget limit envs ag = TReturned ag'
                  \<and> ag_is_done ag' \<and> n_steps ag' \<le> int T + 1
                  \<and> (\<not> ag_is_done ag \<and> n_steps ag' = int T + 1 \<longrightarrow>
                       ag_success ag' = Some False \<and> last_result ag' = Some [loop_result]
                       \<and> recent_actions ag' = replicate T (action_signature dumps a))"
    proof (cases "ag_is_done ag")
      case True
      then show ?thesis
        using h by (simp add: tutorial_run_loop_done)
    next
      case False
      have pr: "proposes (envs (n_steps ag)) a"
        using assms(3) h by simp
      have cnt: "count_repeated_actions (recent_actions ag) (action_signature dumps a)
                 \<ge> max_repeated_actions ag + 2"
        using h by (simp add: count_repeated_replicate)
      from pr obtain page content out where e: "browser_state (envs (n_steps ag)) = Inr page"
        "llm_complete (envs (n_steps ag)) = Inr content" "parse_response content = Inr out"
        "action out = [a]"
        by (rule proposesD)
      from tutorial_step_forced [OF e assms(2) cnt]
      obtain ag1 where s: "tutorial_execute_step dumps (envs (n_steps ag)) ag = Inr ag1"
        "ag_is_done ag1" "ag_success ag1 = Some False" "last_result ag1 = Some [loop_result]"
        "recent_actions ag1 = recent_actions ag" "n_steps ag1 = n_steps ag"
        by blast
      have lt: "n_steps ag < limit"
        using h assms(5) by simp
      have ns: "\<not> is_stopped ag"
        using h by simp
      have "tutorial_run_loop dumps budget limit envs ag
            = TReturned (ag1\<lparr>n_steps := n_steps ag1 + 1\<rparr>)"
        using tutorial_run_loop_step [where envs = envs and budget = budget, OF False lt ns s(1)] h s(2)
        by (simp add: tutorial_run_loop_done)
      then show ?thesis
        using s h by simp
    qed
  qed
next
  case (step j)
  show ?case
  proof (intro allI impI)
    fix ag :: tutorial_agent
    assume h: "recent_actions ag = replicate j (action_signature dumps a)
              \<and> n_steps ag = int j \<and> \<not> is_stopped ag
              \<and> int T = max_repeated_actions ag + 2"
    show "\<exists>ag'. tutorial_run_loop dumps budget limit envs ag = TReturned ag'
                  \<and> ag_is_done ag' \<and> n_steps ag' \<le> int T + 1
                  \<and> (\<not> ag_is_done ag \<and> n_steps ag' = int T + 1 \<longrightarrow>
                       ag_success ag' = Some False \<and> last_result ag' = Some [loop_result]
                       \<and> recent_actions ag' = replicate T (action_signature dumps a))"
    proof (cases "ag_is_done ag")
      case True
      then show ?thesis
        using h step.hyps by (simp add: tutorial_run_loop_done)
    next
      case False
      have pr: "proposes (envs (n_steps ag)) a"
        using assms(3) h step.hyps by simp
      have cnt: "count_repeated_actions (recent_actions ag) (action_signature dumps a)
                 < max_repeated_actions ag + 2"
        using h step.hyps by (simp add: count_repeated_replicate)
      from pr obtain page content out where e: "browser_state (envs (n_steps ag)) = Inr page"
        "llm_complete (envs (n_steps ag)) = Inr content" "parse_response content = Inr out"
        "action out = [a]"
        by (rule proposesD)
      from tutorial_step_tracked [OF e assms(2) cnt]
      obtain ag1 where s: "tutorial_execute_step dumps (envs (n_steps ag)) ag = Inr ag1"
        "recent_actions ag1 = track_action (recent_actions ag) (action_signature dumps a)"
        "max_repeated_actions ag1 = max_repeated_actions ag"
        "is_stopped ag1 = is_stopped ag" "n_steps ag1 = n_steps ag"
        by blast
      let ?ag2 = "ag1\<lparr>n_steps := n_steps ag1 + 1\<rparr>"
      have lt: "n_steps ag < limit"
        using h assms(5) step.hyps by simp
      have ns: "\<not> is_stopped ag"
        using h by simp
      have j10: "j < 10"
        using step.hyps assms(4) by simp
      have r: "tutorial_run_loop dumps budget limit envs ag
               = tutorial_run_loop dumps budget limit envs ?ag2"
        using tutorial_run_loop_step [where envs = envs and budget = budget, OF False lt ns s(1)] h by simp
      have pre: "recent_actions ?ag2 = replicate (Suc j) (action_signature dumps a)
              \<and> n_steps ?ag2 = int (Suc j) \<and> \<not> is_stopped ?ag2
              \<and> int T = max_repeated_actions ?ag2 + 2"
        using s h track_action_replicate [OF j10] by simp
      from step.IH pre
      obtain ag' where f: "tutorial_run_loop dumps budget limit envs ?ag2 = TReturned ag'"
        "ag_is_done ag'" "n_steps ag' \<le> int T + 1"
        "\<not> ag_is_done ?ag2 \<and> n_steps ag' = int T + 1 \<longrightarrow>
           ag_success ag' = Some False \<and> last_result ag' = Some [loop_result]
           \<and> recent_actions ag' = replicate T (action_signature dumps a)"
        by blast
      have d2: "n_steps ag' = int j + 1" if "ag_is_done ?ag2"
      proof -
        have "ag' = ?ag2"
          using f(1) that by (simp add: tutorial_run_loop_done)
        then show ?thesis
          using s(5) h by simp
      qed
      have "\<not> ag_is_done ag \<and> n_steps ag' = int T + 1 \<longrightarrow>
           ag_success ag' = Some False \<and> last_result ag' = Some [loop_result]
           \<and> recent_actions ag' = replicate T (action_signature dumps a)"
        using f(4) d2 step.hyps by (cases "ag_is_done ?ag2") auto
      then show ?thesis
        using r f(1,2,3) by simp
    qed
  qed
qed

text \<open>
  C8: a proposed action whose signature already occurs threshold+2 times among the tracked
  signatures (the last ten) is not executed: the step returns the single terminal result
  with \<^verbatim>\<open>success=False\<close> and the explanatory message, the tracked signatures stay as
  they are, and the agent is done without success.  Hence, when the first threshold+3 steps
  of a run each propose the same single action and the step budget is at least
  threshold+3, the run returns done within threshold+3 steps; if it takes all of them, it
  ends with \<^verbatim>\<open>success=False\<close> and the loop result, the action having been tracked
  threshold+2 times.  The window of ten entries requires threshold+2 \<le> 10, which holds
  for the default threshold 2.
\<close>

theorem C8_repeated_signature_forces_done:
  assumes "a \<noteq> []"
    and "\<forall>n. 0 \<le> n \<and> n \<le> max_repeated_actions ag + 2 \<longrightarrow> proposes (envs n) a"
    and "0 \<le> max_repeated_actions ag + 2" and "max_repeated_actions ag + 2 \<le> 10"
    and "max_repeated_actions ag + 3 \<le> limit"
    and "n_steps ag = 0" and "recent_actions ag = []"
    and "\<not> is_stopped ag" and "\<not> ag_is_done ag"
  shows "(\<forall>env ag1. proposes env a
            \<and> count_repeated_actions (recent_actions ag1) (action_signature dumps a)
                \<ge> max_repeated_actions ag1 + 2
          \<longrightarrow> (\<exists>ag2. tutorial_execute_step dumps env ag1 = Inr ag2
                  \<and> ag_is_done ag2 \<and> ag_success ag2 = Some False
                  \<and> last_result ag2 = Some [loop_result]
                  \<and> recent_actions ag2 = recent_actions ag1))
         \<and> is_done loop_result \<and> success loop_result = Some False
         \<and> extracted_content loop_result = Some loop_message \<and> loop_message \<noteq> []
         \<and> (\<exists>ag'. tutorial_run_loop dumps budget limit envs ag = TReturned ag'
               \<and> ag_is_done ag' \<and> n_steps ag' \<le> max_repeated_actions ag + 3
               \<and> (n_steps ag' = max_repeated_actions ag + 3 \<longrightarrow>
                    ag_success ag' = Some False \<and> last_result ag' = Some [loop_result]
                    \<and> recent_actions ag'
                        = replicate (nat (max_repeated_actions ag + 2)) (action_signature dumps a)))"
proof -
  let ?T = "nat (max_repeated_actions ag + 2)"
  have step: "\<exists>ag2. tutorial_execute_step dumps env ag1 = Inr ag2
                  \<and> ag_is_done ag2 \<and> ag_success ag2 = Some False
                  \<and> last_result ag2 = Some [loop_result]
                  \<and> recent_actions ag2 = recent_actions ag1"
    if "proposes env a"
      and "count_repeated_actions (recent_actions ag1) (action_signature dumps a)
             \<ge> max_repeated_actions ag1 + 2"
    for env and ag1 :: tutorial_agent
  proof -
    from that(1) obtain page content out where e: "browser_state env = Inr page"
      "llm_complete env = Inr content" "parse_response content = Inr out" "action out = [a]"
      by (rule proposesD)
    from tutorial_step_forced [OF e assms(1) that(2)] show ?thesis
      by blast
  qed
  have msg: "is_done loop_result" "success loop_result = Some False"
    "extracted_content loop_result = Some loop_message" "loop_message \<noteq> []"
    by (simp_all add: loop_result_def loop_message_def default_ActionResult_def)
  have T: "int ?T = max_repeated_actions ag + 2"
    using assms(3) by simp
  have envs: "\<forall>n. 0 \<le> n \<and> n \<le> int ?T \<longrightarrow> proposes (envs n) a"
    using assms(2) T by simp
  have T10: "?T \<le> 10"
    using assms(4) by simp
  have lim: "int ?T < limit"
    using assms(5) T by simp
  have start: "recent_actions ag = replicate 0 (action_signature dumps a)
              \<and> n_steps ag = int 0 \<and> \<not> is_stopped ag
              \<and> int ?T = max_repeated_actions ag + 2"
    using assms(6,7,8) T by simp
  from tutorial_run_repeats [OF le0 assms(1) envs T10 lim, of dumps budget] start assms(9)
  obtain ag' where r: "tutorial_run_loop dumps budget limit envs ag = TReturned ag'"
    "ag_is_done ag'" "n_steps ag' \<le> int ?T + 1"
    "n_steps ag' = int ?T + 1 \<longrightarrow>
       ag_success ag' = Some False \<and> last_result ag' = Some [loop_result]
       \<and> recent_actions ag' = replicate ?T (action_signature dumps a)"
    by blast
  have run: "\<exists>ag'. tutorial_run_loop dumps budget limit envs ag = TReturned ag'
               \<and> ag_is_done ag' \<and> n_steps ag' \<le> max_repeated_actions ag + 3
               \<and> (n_steps ag' = max_repeated_actions ag + 3 \<longrightarrow>
                    ag_success ag' = Some False \<and> last_result ag' = Some [loop_result]
                    \<and> recent_actions ag'
                        = replicate ?T (action_signature dumps a))"
    using r T by (intro exI [of _ ag']) simp
  from step msg run show ?thesis
    by blast
qed

lemma proposes_click:
  "proposes click_env click_action"
  by (simp add: proposes_def click_env_def click_action_def parse_response_def parse_body_def
        new_AgentOutput_def)

theorem C8_repeated_signature_forces_done_witness:
  "\<exists>ag'. tutorial_run_loop dumps_fixed 3 20 (\<lambda>n. click_env) new_tutorial_agent = TReturned ag'
         \<and> ag_is_done ag' \<and> n_steps ag' \<le> 5
         \<and> (n_steps ag' = 5 \<longrightarrow>
              ag_success ag' = Some False \<and> last_result ag' = Some [loop_result]
              \<and> recent_actions ag' = replicate 4 (action_signature dumps_fixed click_action))"
proof -
  have a: "click_action \<noteq> []"
    by (simp add: click_action_def)
  have p: "\<forall>n. 0 \<le> n \<and> n \<le> max_repeated_actions new_tutorial_agent + 2
             \<longrightarrow> proposes ((\<lambda>n. click_env) n) click_action"
    using proposes_click by simp
  have t: "0 \<le> max_repeated_actions new_tutorial_agent + 2"
    "max_repeated_actions new_tutorial_agent + 2 \<le> 10"
    "max_repeated_actions new_tutorial_agent + 3 \<le> 20"
    "n_steps new_tutorial_agent = 0" "recent_actions new_tutorial_agent = []"
    "\<not> is_stopped new_tutorial_agent" "\<not> ag_is_done new_tutorial_agent"
    by (simp_all add: new_tutorial_agent_def)
  have m: "max_repeated_actions new_tutorial_agent = 2"
    by (simp add: new_tutorial_agent_def)
  from C8_repeated_signature_forces_done [OF a p t, of dumps_fixed 3]
  show ?thesis
    by (simp add: m)
qed

lemma click_run_takes_five_steps:
  "(case tutorial_run_loop dumps_fixed 3 20 (\<lambda>n. click_env) new_tutorial_agent of
      TReturned ag' \<Rightarrow> n_steps ag' = 5 \<and> ag_success ag' = Some False
                        \<and> length (recent_actions ag') = 4
    | TRaised e ag' \<Rightarrow> False)"
  by code_simp

subsection \<open>Tree builder: the indices follow the depth-first walk\<close>

lemma upto_append:
  assumes "a \<le> b" and "b \<le> c"
  shows "[a..b - 1] @ [b..c - 1] = [a..c - 1]"
proof (cases "b = c")
  case True
  then show ?thesis by simp
next
  case False
  then have "b \<le> c - 1" using assms(2) by simp
  from upto_split1 [OF assms(1) this] show ?thesis by simp
qed

lemma update_fresh_key:
  "k \<notin> fst ` set al \<Longrightarrow> AList.update k v al = al @ [(k, v)]"
  by (induction al) auto

lemma map_filter_cong_map:
  "map f xs = map f ys \<Longrightarrow> List.map_filter f xs = List.map_filter f ys"
proof (induction xs arbitrary: ys)
  case Nil
  then show ?case by simp
next
  case (Cons x xs)
  then obtain y ys' where ys: "ys = y # ys'" by (cases ys) auto
  with Cons.prems have "f x = f y" "map f xs = map f ys'" by simp_all
  with Cons.IH [of ys'] ys show ?case
    by (cases "f y") (simp_all add: map_filter_simps)
qed

lemma map_filter_append:
  "List.map_filter f (xs @ ys) = List.map_filter f xs @ List.map_filter f ys"
  by (simp add: List.map_filter_def)

lemma static_fields:
  assumes "static n = static m"
  shows "node_id n = node_id m" and "index n = index m" and "qualifies n = qualifies m"
  using assms
  by (simp_all add: static_def qualifies_def is_element_def is_interactive_def)

lemma map_static_cong:
  assumes "map static xs = map static ys"
    and "\<And>n m. static n = static m \<Longrightarrow> g n = g m"
  shows "map g xs = map g ys"
  using assms(1)
proof (induction xs arbitrary: ys)
  case Nil
  then show ?case by simp
next
  case (Cons x xs)
  then obtain y ys' where ys: "ys = y # ys'" by (cases ys) auto
  with Cons.prems have "static x = static y" "map static xs = map static ys'" by simp_all
  with Cons.IH [of ys'] assms(2) [of x y] ys show ?case
    by simp
qed

lemma map_static_fields:
  assumes "map static xs = map static ys"
  shows "map node_id xs = map node_id ys" and "map index xs = map index ys"
    and "(\<forall>n \<in> set ys. index n \<noteq> None \<longrightarrow> qualifies n)
         \<Longrightarrow> (\<forall>n \<in> set xs. index n \<noteq> None \<longrightarrow> qualifies n)"
proof -
  show "map node_id xs = map node_id ys"
    by (rule map_static_cong [OF assms]) (rule static_fields(1))
  show "map index xs = map index ys"
    by (rule map_static_cong [OF assms]) (rule static_fields(2))
  have m: "map (\<lambda>n. index n \<noteq> None \<longrightarrow> qualifies n) xs
           = map (\<lambda>n. index n \<noteq> None \<longrightarrow> qualifies n) ys"
  proof (rule map_static_cong [OF assms])
    fix n m :: DOMNode
    assume "static n = static m"
    from static_fields(2,3) [OF this]
    show "(index n \<noteq> None \<longrightarrow> qualifies n) = (index m \<noteq> None \<longrightarrow> qualifies m)"
      by simp
  qed
  assume q: "\<forall>n \<in> set ys. index n \<noteq> None \<longrightarrow> qualifies n"
  then have "\<forall>b \<in> set (map (\<lambda>n. index n \<noteq> None \<longrightarrow> qualifies n) ys). b"
    by simp
  then have "\<forall>b \<in> set (map (\<lambda>n. index n \<noteq> None \<longrightarrow> qualifies n) xs). b"
    by (simp only: m)
  then show "\<forall>n \<in> set xs. index n \<noteq> None \<longrightarrow> qualifies n"
    by simp
qed

lemma grows_refl: "sel_ok ex \<Longrightarrow> grows [] ex ex"
  unfolding grows_def by (rule exI [of _ "[]"]) (simp add: map_filter_simps)

lemma grows_trans:
  assumes "grows ids1 ex ex1" and "grows ids2 ex1 ex2"
  shows "grows (ids1 @ ids2) ex ex2"
proof -
  from assms(1) obtain new1 where a:
    "map static (heap ex1) = map static (heap ex) @ map static new1"
    "map node_id new1 = ids1"
    "List.map_filter index new1 = [interactive_index ex..interactive_index ex1 - 1]"
    "\<forall>n \<in> set new1. index n \<noteq> None \<longrightarrow> qualifies n"
    "interactive_index ex \<le> interactive_index ex1"
    "map fst (ex_selector_map ex1)
       = map fst (ex_selector_map ex) @ [interactive_index ex..interactive_index ex1 - 1]"
    unfolding grows_def by blast
  from assms(2) obtain new2 where b:
    "map static (heap ex2) = map static (heap ex1) @ map static new2"
    "map node_id new2 = ids2"
    "List.map_filter index new2 = [interactive_index ex1..interactive_index ex2 - 1]"
    "\<forall>n \<in> set new2. index n \<noteq> None \<longrightarrow> qualifies n"
    "interactive_index ex1 \<le> interactive_index ex2"
    "map fst (ex_selector_map ex2)
       = map fst (ex_selector_map ex1) @ [interactive_index ex1..interactive_index ex2 - 1]"
    "sel_ok ex2"
    unfolding grows_def by blast
  have u: "[interactive_index ex..interactive_index ex1 - 1]
           @ [interactive_index ex1..interactive_index ex2 - 1]
           = [interactive_index ex..interactive_index ex2 - 1]"
    by (rule upto_append [OF a(5) b(5)])
  have 1: "map static (heap ex2) = map static (heap ex) @ map static (new1 @ new2)"
    using a(1) b(1) by simp
  have 2: "map node_id (new1 @ new2) = ids1 @ ids2"
    using a(2) b(2) by simp
  have 3: "List.map_filter index (new1 @ new2)
           = [interactive_index ex..interactive_index ex2 - 1]"
    using a(3) b(3) u by (simp add: map_filter_append)
  have 4: "\<forall>n \<in> set (new1 @ new2). index n \<noteq> None \<longrightarrow> qualifies n"
    using a(4) b(4) by auto
  have 5: "interactive_index ex \<le> interactive_index ex2"
    using a(5) b(5) by simp
  have 6: "map fst (ex_selector_map ex2)
           = map fst (ex_selector_map ex) @ [interactive_index ex..interactive_index ex2 - 1]"
    using a(6) b(6) u by simp
  show ?thesis
    unfolding grows_def using 1 2 3 4 5 6 b(7) by (intro exI [of _ "new1 @ new2"]) blast
qed

lemma grows_update_node:
  assumes "sel_ok ex" and "\<And>n. static (f n) = static n"
  shows "grows [] ex (update_node ad f ex)"
proof -
  have "map static ((heap ex)[ad := f (heap ex ! ad)]) = map static (heap ex)"
  proof (cases "ad < length (heap ex)")
    case True
    then show ?thesis
      by (simp add: map_update assms(2) list_update_same_conv)
  next
    case False
    then show ?thesis by (simp add: list_update_beyond)
  qed
  then show ?thesis
    unfolding grows_def using assms(1)
    by (intro exI [of _ "[]"]) (simp add: update_node_def map_filter_simps sel_ok_def)
qed

lemma grows_aggregate_text:
  assumes "sel_ok ex"
  shows "grows [] ex (aggregate_text ad ex)"
proof (cases "is_element (heap ex ! ad)")
  case True
  have "grows [] ex (update_node ad
          (\<lambda>n. n\<lparr>text_content := strip (join '' '' (child_text_parts ex (children_ids n)))\<rparr>) ex)"
    by (rule grows_update_node [OF assms]) (simp add: static_def)
  with True show ?thesis by (simp add: aggregate_text_def)
next
  case False
  with grows_refl [OF assms] show ?thesis by (simp add: aggregate_text_def)
qed

lemma static_mark_editable: "static (mark_editable n) = static n"
  by (simp add: mark_editable_def static_def)

lemma static_mark_scrollable: "static (mark_scrollable raw n) = static n"
  by (simp add: mark_scrollable_def static_def)

lemma base_dom_node_fields:
  "node_id (base_dom_node lk raw nid bid parent d) = nid"
  "index (base_dom_node lk raw nid bid parent d) = None"
  by (simp_all add: base_dom_node_def Let_def)

lemma interactive_assign_index:
  "is_element (n\<lparr>index := Some i, is_clickable := True\<rparr>) = is_element n"
  "is_interactive (n\<lparr>index := Some i, is_clickable := True\<rparr>) = is_interactive n"
  by (simp_all add: is_element_def is_interactive_def)

lemma assign_index_fields:
  "node_id (assign_index i n) = node_id n"
  "index n = None \<Longrightarrow> index (assign_index i n) = None \<or> index (assign_index i n) = Some i"
  "index n = None \<Longrightarrow> index (assign_index i n) \<noteq> None \<longrightarrow> qualifies (assign_index i n)"
  by (simp_all add: assign_index_def qualifies_def interactive_assign_index)

lemma static_make_dom_node:
  "static (make_dom_node lk raw nid bid parent d i)
   = static (assign_index i (base_dom_node lk raw nid bid parent d))"
  by (simp add: make_dom_node_def static_mark_scrollable static_mark_editable)

lemma make_dom_node_static:
  "node_id (make_dom_node lk raw nid bid parent d i) = nid"
  "index (make_dom_node lk raw nid bid parent d i) = None
     \<or> index (make_dom_node lk raw nid bid parent d i) = Some i"
  "index (make_dom_node lk raw nid bid parent d i) \<noteq> None
     \<longrightarrow> qualifies (make_dom_node lk raw nid bid parent d i)"
proof -
  let ?b = "base_dom_node lk raw nid bid parent d"
  note s = static_fields [OF static_make_dom_node [of lk raw nid bid parent d i]]
  show "node_id (make_dom_node lk raw nid bid parent d i) = nid"
    using s(1) by (simp add: assign_index_fields(1) base_dom_node_fields(1))
  show "index (make_dom_node lk raw nid bid parent d i) = None
     \<or> index (make_dom_node lk raw nid bid parent d i) = Some i"
    using s(2) assign_index_fields(2) [OF base_dom_node_fields(2), of i lk raw nid bid parent d]
    by simp
  show "index (make_dom_node lk raw nid bid parent d i) \<noteq> None
     \<longrightarrow> qualifies (make_dom_node lk raw nid bid parent d i)"
    using s(2,3) assign_index_fields(3) [OF base_dom_node_fields(2), of i lk raw nid bid parent d]
    by simp
qed

lemma grows_store_node:
  assumes "sel_ok ex" and "index n = None \<or> index n = Some (interactive_index ex)"
    and "index n \<noteq> None \<longrightarrow> qualifies n"
  shows "grows [node_id n] ex (store_node n ex)"
proof (cases "index n")
  case None
  then show ?thesis
    unfolding grows_def using assms(1)
    by (intro exI [of _ "[n]"]) (simp add: store_node_def Let_def map_filter_simps sel_ok_def)
next
  case (Some i)
  with assms(2) have i: "i = interactive_index ex" by simp
  have fresh: "interactive_index ex \<notin> fst ` set (ex_selector_map ex)"
    using assms(1) by (auto simp add: sel_ok_def)
  have keys: "map fst (dict_set (ex_selector_map ex) (interactive_index ex) (to_selector_info n))
              = map fst (ex_selector_map ex) @ [interactive_index ex]"
    by (simp add: update_fresh_key [OF fresh])
  have ok: "sel_ok (store_node n ex)"
    using assms(1) Some i keys by (auto simp add: store_node_def Let_def sel_ok_def)
  show ?thesis
    unfolding grows_def using Some i assms(3) keys ok
    by (intro exI [of _ "[n]"]) (simp add: store_node_def Let_def map_filter_simps)
qed

lemma grows_sel_ok: "grows ids ex ex' \<Longrightarrow> sel_ok ex'"
  by (auto simp add: grows_def)

lemma static_update_links:
  "static (m\<lparr>children_ids := ids\<rparr>) = static m"
  "static (m\<lparr>content_document_id := c\<rparr>) = static m"
  "static (m\<lparr>shadow_root_id := s, shadow_root_type := t\<rparr>) = static m"
  by (simp_all add: static_def)

lemma process_grows:
  "sel_ok ex \<Longrightarrow>
     grows (visited_ids (dfs_order raw)) ex (snd (process_node lk raw parent d ex))"
  "sel_ok ex \<Longrightarrow>
     grows (visited_ids (concat (map dfs_order cs))) ex
       (snd (process_children lk cs nid d ids ex))"
  "sel_ok ex \<Longrightarrow>
     grows (visited_ids (concat (map dfs_order rs))) ex
       (process_shadow_roots lk rs ad nid d ex)"
proof (induction lk raw parent d ex and lk cs nid d ids ex and lk rs ad nid d ex
       rule: process_node_process_children_process_shadow_roots.induct)
  case (1 lk nid_opt bid_opt ty nm val attrs scr fid srt chs cd srs parent d ex)
  let ?raw = "RawNode nid_opt bid_opt ty nm val attrs scr fid srt chs cd srs"
  show ?case
  proof (cases "nid_opt = None \<or> bid_opt = None")
    case True
    then have "process_node lk ?raw parent d ex = (None, ex)"
      by (auto split: option.splits)
    moreover from True have "dfs_order ?raw = []"
      by simp
    ultimately show ?thesis
      using grows_refl [OF "1.prems"] by (simp add: visited_ids_def)
  next
    case False
    then obtain nid bid where ids: "nid_opt = Some nid" "bid_opt = Some bid"
      by auto
    define n where "n = make_dom_node lk ?raw nid bid parent d (interactive_index ex)"
    define ad where "ad = length (heap ex)"
    define ex1 where "ex1 = store_node n ex"
    obtain cids ex2 where c: "process_children lk chs nid (d + 1) [] ex1 = (cids, ex2)"
      by (cases "process_children lk chs nid (d + 1) [] ex1")
    define ex3 where "ex3 = update_node ad (\<lambda>m. m\<lparr>children_ids := cids\<rparr>) ex2"
    define ex4 where "ex4 =
      (case cd of
         None \<Rightarrow> ex3
       | Some doc \<Rightarrow>
           (case process_node lk doc (Some nid) (d + 1) ex3 of
              (None, ex') \<Rightarrow> ex'
            | (Some dad, ex') \<Rightarrow>
                update_node ad
                  (\<lambda>m. m\<lparr>content_document_id := Some (node_id (heap ex' ! dad))\<rparr>) ex'))"
    define ex5 where "ex5 = process_shadow_roots lk srs ad nid (d + 1) ex4"
    have res: "process_node lk ?raw parent d ex = (Some ad, aggregate_text ad ex5)"
      using c unfolding n_def ad_def ex1_def ex3_def ex4_def ex5_def ids
      by (simp add: Let_def)
    have g1: "grows [nid] ex ex1"
      using grows_store_node [OF "1.prems", of n] make_dom_node_static [of lk ?raw nid bid parent d "interactive_index ex"]
      by (simp add: n_def ex1_def)
    have g2: "grows (visited_ids (concat (map dfs_order chs))) ex1 ex2"
      using "1.IH"(1) [OF ids n_def ad_def ex1_def grows_sel_ok [OF g1]] c by simp
    have g3: "grows [] ex2 ex3"
      unfolding ex3_def
      by (rule grows_update_node [OF grows_sel_ok [OF g2]]) (rule static_update_links(1))
    have g4: "grows (visited_ids (case cd of None \<Rightarrow> [] | Some doc \<Rightarrow> dfs_order doc)) ex3 ex4"
    proof (cases cd)
      case None
      then show ?thesis
        using grows_refl [OF grows_sel_ok [OF g3]] by (simp add: ex4_def visited_ids_def)
    next
      case (Some doc)
      obtain r ex' where p: "process_node lk doc (Some nid) (d + 1) ex3 = (r, ex')"
        by (cases "process_node lk doc (Some nid) (d + 1) ex3")
      have h: "grows (visited_ids (dfs_order doc)) ex3 ex'"
        using "1.IH"(2) [OF ids n_def ad_def ex1_def c [symmetric] refl ex3_def Some
                grows_sel_ok [OF g3]] p
        by simp
      show ?thesis
      proof (cases r)
        case None
        then show ?thesis
          using h p Some by (simp add: ex4_def)
      next
        case (Some dad)
        have "grows [] ex' (update_node ad
                 (\<lambda>m. m\<lparr>content_document_id := Some (node_id (heap ex' ! dad))\<rparr>) ex')"
          by (rule grows_update_node [OF grows_sel_ok [OF h]]) (rule static_update_links(2))
        from grows_trans [OF h this] show ?thesis
          using p Some \<open>cd = Some doc\<close> by (simp add: ex4_def)
      qed
    qed
    have g5: "grows (visited_ids (concat (map dfs_order srs))) ex4 ex5"
      using "1.IH"(3) [OF ids n_def ad_def ex1_def c [symmetric] refl ex3_def ex4_def
              grows_sel_ok [OF g4]]
      by (simp add: ex5_def)
    have g6: "grows [] ex5 (aggregate_text ad ex5)"
      by (rule grows_aggregate_text [OF grows_sel_ok [OF g5]])
    have order: "visited_ids (dfs_order ?raw)
                 = [nid] @ visited_ids (concat (map dfs_order chs)) @ []
                   @ visited_ids (case cd of None \<Rightarrow> [] | Some doc \<Rightarrow> dfs_order doc)
                   @ visited_ids (concat (map dfs_order srs)) @ []"
      using ids by (simp add: visited_ids_def)
    from grows_trans [OF g1 grows_trans [OF g2 grows_trans [OF g3 grows_trans [OF g4
           grows_trans [OF g5 g6]]]]]
    show ?thesis
      by (simp only: order res snd_conv)
  qed
next
  case (2 lk nid d ids ex)
  then show ?case
    using grows_refl [of ex] by (simp add: visited_ids_def)
next
  case (3 lk c cs nid d ids ex)
  obtain r ex' where p: "process_node lk c (Some nid) d ex = (r, ex')"
    by (cases "process_node lk c (Some nid) d ex")
  have h: "grows (visited_ids (dfs_order c)) ex ex'"
    using "3.IH"(1) [OF "3.prems"] p by simp
  have t: "grows (visited_ids (concat (map dfs_order cs))) ex'
             (snd (process_children lk (c # cs) nid d ids ex))"
  proof (cases r)
    case None
    from "3.IH"(2) [OF p [symmetric] None grows_sel_ok [OF h]] show ?thesis
      using p None by simp
  next
    case (Some cad)
    from "3.IH"(3) [OF p [symmetric] Some grows_sel_ok [OF h]] show ?thesis
      using p Some by simp
  qed
  from grows_trans [OF h t] show ?case
    by (simp add: visited_ids_def)
next
  case (4 lk ad nid d ex)
  then show ?case
    using grows_refl [of ex] by (simp add: visited_ids_def)
next
  case (5 lk r rs ad nid d ex)
  obtain res ex' where p: "process_node lk r (Some nid) d ex = (res, ex')"
    by (cases "process_node lk r (Some nid) d ex")
  have h: "grows (visited_ids (dfs_order r)) ex ex'"
    using "5.IH"(1) [OF "5.prems"] p by simp
  have t: "grows (visited_ids (concat (map dfs_order rs))) ex'
             (process_shadow_roots lk (r # rs) ad nid d ex)"
  proof (cases res)
    case None
    from "5.IH"(2) [OF p [symmetric] None grows_sel_ok [OF h]] show ?thesis
      using p None by simp
  next
    case (Some sad)
    let ?ex'' = "update_node ad
               (\<lambda>m. m\<lparr>shadow_root_id := Some (node_id (heap ex' ! sad)),
                       shadow_root_type := shadowRootType r\<rparr>) ex'"
    have u: "grows [] ex' ?ex''"
      by (rule grows_update_node [OF grows_sel_ok [OF h]]) (rule static_update_links(3))
    from "5.IH"(3) [OF p [symmetric] Some grows_sel_ok [OF u]]
    have "grows (visited_ids (concat (map dfs_order rs))) ?ex''
            (process_shadow_roots lk rs ad nid d ?ex'')" .
    from grows_trans [OF u this] show ?thesis
      using p Some by simp
  qed
  from grows_trans [OF h t] show ?case
    by (simp add: visited_ids_def)
qed

lemma sel_ok_new_extractor: "sel_ok new_extractor"
  by (simp add: sel_ok_def new_extractor_def)

lemma build_dom_tree_grows:
  assumes "sel_ok ex"
  shows "grows (visited_ids (case tree_root of None \<Rightarrow> [] | Some r \<Rightarrow> dfs_order r))
           ex (build_dom_tree lk tree_root ex)"
proof (cases tree_root)
  case None
  then show ?thesis
    using grows_refl [OF assms] by (simp add: build_dom_tree_def visited_ids_def)
next
  case (Some r)
  then show ?thesis
    using process_grows(1) [OF assms, of r lk None 0] by (simp add: build_dom_tree_def)
qed

lemmas tree_eval = build_dom_tree_def new_extractor_def raw_leaf_def no_lookups_def
  make_dom_node_def base_dom_node_def assign_index_def mark_editable_def mark_scrollable_def
  store_node_def update_node_def aggregate_text_def child_text_parts_def Let_def
  is_element_def is_interactive_def is_text_def interactive_tags_def interactive_roles_def
  to_NodeType_def node_visibility_def lower_def lower_char_def to_selector_info_def
  strip_def is_space_def

lemma map_filter_via_map:
  "List.map_filter f xs = List.map_filter (\<lambda>x. x) (map f xs)"
  by (induction xs) (simp_all add: map_filter_simps split: option.splits)


text \<open>
  What holds of every pass, from any state of the extractor that passes have produced: the
  objects of the earlier passes keep their indices, the new objects follow the depth-first
  walk, their indices are the consecutive numbers from the counter at the start of the pass
  on, every new node with an index is a visible interactive element, and the selector map
  gains exactly these keys.
\<close>

lemma extraction_pass_indices:
  assumes "sel_ok ex"
  shows "sel_ok (build_dom_tree lk tree_root ex)"
    and "length (heap ex) \<le> length (heap (build_dom_tree lk tree_root ex))"
    and "map index (take (length (heap ex)) (heap (build_dom_tree lk tree_root ex)))
         = map index (heap ex)"
    and "map node_id (drop (length (heap ex)) (heap (build_dom_tree lk tree_root ex)))
         = visited_ids (case tree_root of None \<Rightarrow> [] | Some r \<Rightarrow> dfs_order r)"
    and "List.map_filter index (drop (length (heap ex)) (heap (build_dom_tree lk tree_root ex)))
         = [interactive_index ex..interactive_index (build_dom_tree lk tree_root ex) - 1]"
    and "\<forall>n \<in> set (drop (length (heap ex)) (heap (build_dom_tree lk tree_root ex))).
           index n \<noteq> None \<longrightarrow> is_element n \<and> is_visible n \<and> is_interactive n"
    and "map fst (ex_selector_map (build_dom_tree lk tree_root ex))
         = map fst (ex_selector_map ex)
           @ [interactive_index ex..interactive_index (build_dom_tree lk tree_root ex) - 1]"
proof -
  let ?ex' = "build_dom_tree lk tree_root ex"
  from build_dom_tree_grows [OF assms, of tree_root lk] obtain new where g:
    "map static (heap ?ex') = map static (heap ex) @ map static new"
    "map node_id new = visited_ids (case tree_root of None \<Rightarrow> [] | Some r \<Rightarrow> dfs_order r)"
    "List.map_filter index new = [interactive_index ex..interactive_index ?ex' - 1]"
    "\<forall>n \<in> set new. index n \<noteq> None \<longrightarrow> qualifies n"
    "map fst (ex_selector_map ?ex')
       = map fst (ex_selector_map ex) @ [interactive_index ex..interactive_index ?ex' - 1]"
    "sel_ok ?ex'"
    unfolding grows_def by blast
  show "sel_ok ?ex'"
    by (rule g(6))
  have len: "length (heap ?ex') = length (heap ex) + length new"
    using arg_cong [OF g(1), of length] by simp
  then show "length (heap ex) \<le> length (heap ?ex')"
    by simp
  have "map static (take (length (heap ex)) (heap ?ex'))
        = take (length (heap ex)) (map static (heap ?ex'))"
    by (simp add: take_map)
  then have old: "map static (take (length (heap ex)) (heap ?ex')) = map static (heap ex)"
    by (simp add: g(1))
  show "map index (take (length (heap ex)) (heap ?ex')) = map index (heap ex)"
    by (rule map_static_fields(2) [OF old])
  have "map static (drop (length (heap ex)) (heap ?ex'))
        = drop (length (heap ex)) (map static (heap ?ex'))"
    by (simp add: drop_map)
  then have s: "map static (drop (length (heap ex)) (heap ?ex')) = map static new"
    by (simp add: g(1))
  show "map node_id (drop (length (heap ex)) (heap ?ex'))
         = visited_ids (case tree_root of None \<Rightarrow> [] | Some r \<Rightarrow> dfs_order r)"
    using map_static_fields(1) [OF s] g(2) by simp
  show "List.map_filter index (drop (length (heap ex)) (heap ?ex'))
         = [interactive_index ex..interactive_index ?ex' - 1]"
    using map_filter_cong_map [OF map_static_fields(2) [OF s]] g(3) by simp
  have "\<forall>n \<in> set (drop (length (heap ex)) (heap ?ex')). index n \<noteq> None \<longrightarrow> qualifies n"
    by (rule map_static_fields(3) [OF s g(4)])
  then show "\<forall>n \<in> set (drop (length (heap ex)) (heap ?ex')).
           index n \<noteq> None \<longrightarrow> is_element n \<and> is_visible n \<and> is_interactive n"
    by (simp add: qualifies_def)
  show "map fst (ex_selector_map ?ex')
         = map fst (ex_selector_map ex) @ [interactive_index ex..interactive_index ?ex' - 1]"
    by (rule g(5))
qed

text \<open>
  The first pass of a newly built extractor does what C2 says: the indices read 1, 2, ..., k
  in the order of the depth-first walk.
\<close>

lemma new_extractor_pass_indices:
  "map node_id (heap (build_dom_tree lk tree_root new_extractor))
     = visited_ids (case tree_root of None \<Rightarrow> [] | Some r \<Rightarrow> dfs_order r)"
  "List.map_filter index (heap (build_dom_tree lk tree_root new_extractor))
     = [1..interactive_index (build_dom_tree lk tree_root new_extractor) - 1]"
  "map fst (ex_selector_map (build_dom_tree lk tree_root new_extractor))
     = [1..interactive_index (build_dom_tree lk tree_root new_extractor) - 1]"
  using extraction_pass_indices(4,5,7) [OF sel_ok_new_extractor, of lk tree_root]
  by (simp_all add: new_extractor_def)

lemma small_page_first_pass:
  "map (\<lambda>n. (node_id n, tag_name n, index n))
     (heap (build_dom_tree no_lookups (Some small_page) new_extractor))
   = [(1, ''#document'', None), (2, ''a'', Some 1), (3, ''div'', None),
      (4, ''button'', Some 2), (5, ''input'', Some 3)]"
  by (simp add: tree_eval small_page_def)

lemma first_pass_summary:
  "pass_summary first_pass = ([1, 2], [None, Some 1], 2, [1])"
  by (simp add: first_pass_def button_page_def tree_eval pass_summary_def)

lemma second_pass_summary:
  "pass_summary second_pass = ([1, 2, 1, 2], [None, Some 1, None, Some 2], 3, [1, 2])"
  by (simp add: second_pass_def first_pass_def button_page_def tree_eval pass_summary_def)

text \<open>
  C2 does not hold of a second extraction pass.  \<^verbatim>\<open>extract\<close> and
  \<^verbatim>\<open>_build_dom_tree\<close> run on the fields of the extractor as the pass before left them:
  on a page with one button the first pass gives the button the index 1, and a second pass
  with the same extractor gives it the index 2, leaves the counter at 3 and keeps the entry
  of the first pass in the selector map.  Within each pass the indices are unique and
  increase along the depth-first walk, and every indexed node is a visible interactive
  element (lemma \<open>extraction_pass_indices\<close>); what fails is the start at 1.
\<close>

theorem C2_second_pass_does_not_start_at_1:
  "map node_id (heap first_pass) = [1, 2]
   \<and> map index (heap first_pass) = [None, Some 1]
   \<and> interactive_index first_pass = 2
   \<and> map fst (ex_selector_map first_pass) = [1]
   \<and> map node_id (drop (length (heap first_pass)) (heap second_pass)) = [1, 2]
   \<and> map index (drop (length (heap first_pass)) (heap second_pass)) = [None, Some 2]
   \<and> interactive_index second_pass = 3
   \<and> map fst (ex_selector_map second_pass) = [1, 2]"
proof -
  have f: "map node_id (heap first_pass) = [1, 2]" "map index (heap first_pass) = [None, Some 1]"
    "interactive_index first_pass = 2" "map fst (ex_selector_map first_pass) = [1]"
    using first_pass_summary by (simp_all add: pass_summary_def)
  have s: "map node_id (heap second_pass) = [1, 2, 1, 2]"
    "map index (heap second_pass) = [None, Some 1, None, Some 2]"
    "interactive_index second_pass = 3" "map fst (ex_selector_map second_pass) = [1, 2]"
    using second_pass_summary by (simp_all add: pass_summary_def)
  have len: "length (heap first_pass) = 2"
    using arg_cong [OF f(1), of length] by simp
  have d1: "map node_id (drop (length (heap first_pass)) (heap second_pass)) = [1, 2]"
    using arg_cong [OF s(1), of "drop 2"] by (simp add: len drop_map)
  have d2: "map index (drop (length (heap first_pass)) (heap second_pass)) = [None, Some 2]"
    using arg_cong [OF s(2), of "drop 2"] by (simp add: len drop_map)
  from f d1 d2 s(3,4) show ?thesis
    by simp
qed

end
